theory Spec2Isabelle
  imports Complex_Main "HOL-Library.Sublist"
begin

section \<open>Transcription of collocated/integrated optimization problems\<close>

text \<open>
  A shallow embedding of the parts of
  \<^verbatim>\<open>CollocatedIntegratedOptimizationProblem\<close>
  (file \<^verbatim>\<open>collocated_integrated_optimization_problem.py\<close>) that fix the
  decision-vector layout, split the DAE residual, build the collocation constraint,
  separate constant from ensemble parameters, aggregate the objective, resolve delayed
  feedback, pin initial values from the history and decode a solved vector.

  Symbolic expressions of the algebra engine are represented by what they evaluate to
  (real numbers, or lists of them for column vectors); the engine's own operations
  (structural dependency, interpolation, evaluated integrator output) enter as
  parameters of the definitions that call them.
\<close>

subsection \<open>Errors\<close>

datatype error =
    NotImplementedError string
  | AssertionError
  | NameError
  | IndexError
  | KeyError string
  | ValueError
  | RuntimeError
  | ZeroDivisionError

subsection \<open>The DAE splitter\<close>

text \<open>
  \<^verbatim>\<open>
  for k, var in enumerate(self.dae_variables['states']):
      if var.name() in self.integrated_states:
          integrated_derivatives.append(self.dae_variables['derivatives'][k])
      else:
          collocated_derivatives.append(self.dae_variables['derivatives'][k])
  \<close>
  The states are given by their names; the derivative symbols are of any type.
  Reading \<^verbatim>\<open>derivatives[k]\<close> past the end of the list raises.
\<close>

fun split_derivatives ::
  "string list \<Rightarrow> string list \<Rightarrow> 's list \<Rightarrow> error + ('s list \<times> 's list)" where
  "split_derivatives integrated_states [] derivatives = Inr ([], [])"
| "split_derivatives integrated_states (x # xs) [] = Inl IndexError"
| "split_derivatives integrated_states (x # xs) (d # ds) =
     (case split_derivatives integrated_states xs ds of
        Inl e \<Rightarrow> Inl e
      | Inr (integrated, collocated) \<Rightarrow>
          if x \<in> set integrated_states then Inr (d # integrated, collocated)
          else Inr (integrated, d # collocated))"

text \<open>
  \<^verbatim>\<open>
  contains = False
  for derivative in integrated_derivatives:
      if ca.depends_on(output, derivative):
          contains = True
          break
  \<close>
  \<open>depends_on\<close> is the engine's structural dependency query.
\<close>

fun contains_derivative :: "('e \<Rightarrow> 's \<Rightarrow> bool) \<Rightarrow> 'e \<Rightarrow> 's list \<Rightarrow> bool" where
  "contains_derivative depends_on output [] = False"
| "contains_derivative depends_on output (derivative # rest) =
     (if depends_on output derivative then True
      else contains_derivative depends_on output rest)"

text \<open>
  \<^verbatim>\<open>
  for output in dae_outputs:
      ...
      if contains:
          dae_residual_integrated.append(output)
      else:
          dae_residual_collocated.append(output)
  \<close>
\<close>

fun split_dae_loop ::
  "('e \<Rightarrow> 's \<Rightarrow> bool) \<Rightarrow> 's list \<Rightarrow> 'e list \<Rightarrow> 'e list \<times> 'e list \<Rightarrow> 'e list \<times> 'e list" where
  "split_dae_loop depends_on ders [] acc = acc"
| "split_dae_loop depends_on ders (output # outputs) (dae_residual_integrated, dae_residual_collocated) =
     (if contains_derivative depends_on output ders
      then split_dae_loop depends_on ders outputs
             (dae_residual_integrated @ [output], dae_residual_collocated)
      else split_dae_loop depends_on ders outputs
             (dae_residual_integrated, dae_residual_collocated @ [output]))"

definition split_dae ::
  "('e \<Rightarrow> 's \<Rightarrow> bool) \<Rightarrow> string list \<Rightarrow> string list \<Rightarrow> 's list \<Rightarrow> 'e list
     \<Rightarrow> error + ('e list \<times> 'e list)" where
  "split_dae depends_on integrated_states states derivatives dae_outputs =
     (case split_derivatives integrated_states states derivatives of
        Inl e \<Rightarrow> Inl e
      | Inr (integrated_derivatives, collocated_derivatives) \<Rightarrow>
          Inr (split_dae_loop depends_on integrated_derivatives dae_outputs ([], [])))"

text \<open>
  The property a row is sorted by: it depends on the derivative symbol of a state that is
  declared integrated.
\<close>

definition on_integrated_derivative ::
  "('e \<Rightarrow> 's \<Rightarrow> bool) \<Rightarrow> string list \<Rightarrow> string list \<Rightarrow> 's list \<Rightarrow> 'e \<Rightarrow> bool" where
  "on_integrated_derivative depends_on integrated_states states derivatives row =
     (\<exists>k < length states. states ! k \<in> set integrated_states
        \<and> depends_on row (derivatives ! k))"

subsection \<open>The theta-method collocation constraint\<close>

text \<open>
  The inputs of one step, from collocation time \<open>i\<close> to \<open>i + 1\<close>, as
  \<^verbatim>\<open>transcribe\<close> slices them from \<^verbatim>\<open>accumulated_X\<close> and
  \<^verbatim>\<open>accumulated_U\<close>; \<open>integrated_states_1\<close> is what the integrator step
  returns. Column vectors are lists of the values of their entries.
\<close>

record step_inputs =
  integrated_states_0 :: "real list"
  integrated_states_1 :: "real list"
  collocated_states_0 :: "real list"
  collocated_states_1 :: "real list"
  constant_inputs_0 :: "real list"
  constant_inputs_1 :: "real list"
  collocation_time_0 :: real
  collocation_time_1 :: real

text \<open>
  \<^verbatim>\<open>
  dt = collocation_time_1 - collocation_time_0
  collocated_finite_differences = (collocated_states_1 - collocated_states_0) / dt
  integrated_finite_differences = (integrated_states_1 - integrated_states_0) / dt
  \<close>
\<close>

definition dt :: "step_inputs \<Rightarrow> real" where
  "dt s = collocation_time_1 s - collocation_time_0 s"

definition finite_differences :: "real list \<Rightarrow> real list \<Rightarrow> real \<Rightarrow> real list" where
  "finite_differences x1 x0 h = map (\<lambda>(a, b). (a - b) / h) (zip x1 x0)"

definition collocated_finite_differences :: "step_inputs \<Rightarrow> real list" where
  "collocated_finite_differences s =
     finite_differences (collocated_states_1 s) (collocated_states_0 s) (dt s)"

definition integrated_finite_differences :: "step_inputs \<Rightarrow> real list" where
  "integrated_finite_differences s =
     finite_differences (integrated_states_1 s) (integrated_states_0 s) (dt s)"

text \<open>
  The argument vectors of the two calls of
  \<^verbatim>\<open>dae_residual_function_collocated\<close>: the start point of the interval and its
  end point. Both carry the same finite differences.
\<close>

definition start_point :: "real \<Rightarrow> step_inputs \<Rightarrow> real list" where
  "start_point t0 s =
     integrated_states_0 s @ collocated_states_0 s
     @ integrated_finite_differences s @ collocated_finite_differences s
     @ constant_inputs_0 s @ [collocation_time_0 s - t0]"

definition end_point :: "real \<Rightarrow> step_inputs \<Rightarrow> real list" where
  "end_point t0 s =
     integrated_states_1 s @ collocated_states_1 s
     @ integrated_finite_differences s @ collocated_finite_differences s
     @ constant_inputs_1 s @ [collocation_time_1 s - t0]"

definition blend :: "real \<Rightarrow> real list \<Rightarrow> real list \<Rightarrow> real list" where
  "blend theta r0 r1 = map (\<lambda>(a, b). (1 - theta) * a + theta * b) (zip r0 r1)"

text \<open>
  \<^verbatim>\<open>
  if len(collocated_variables) > 0:
      if theta < 1:
          [dae_residual_0] = dae_residual_function_collocated.call([symbolic_parameters, ...])
      if theta > 0:
          [dae_residual_1] = dae_residual_function_collocated.call([symbolic_parameters, ...])
      if theta == 0:
          accumulated_Y.append(dae_residual_0)
      elif theta == 1:
          accumulated_Y.append(dae_residual_1)
      else:
          accumulated_Y.append((1 - theta) * dae_residual_0 + theta * dae_residual_1)
  \<close>
  The result is the list of blocks appended to \<^verbatim>\<open>accumulated_Y\<close>. A residual
  that was not computed is an unbound name where the last branch reads it.
\<close>

definition collocation_constraint ::
  "real \<Rightarrow> (real list \<Rightarrow> real list \<Rightarrow> real list) \<Rightarrow> string list \<Rightarrow> real list \<Rightarrow> real
     \<Rightarrow> step_inputs \<Rightarrow> error + real list list" where
  "collocation_constraint theta dae_residual_function_collocated collocated_variables
      symbolic_parameters t0 s =
     (if length collocated_variables > 0 then
        (let dae_residual_0 =
               (if theta < 1
                then Some (dae_residual_function_collocated symbolic_parameters (start_point t0 s))
                else None);
             dae_residual_1 =
               (if theta > 0
                then Some (dae_residual_function_collocated symbolic_parameters (end_point t0 s))
                else None)
         in if theta = 0 then
              (case dae_residual_0 of None \<Rightarrow> Inl NameError | Some r0 \<Rightarrow> Inr [r0])
            else if theta = 1 then
              (case dae_residual_1 of None \<Rightarrow> Inl NameError | Some r1 \<Rightarrow> Inr [r1])
            else
              (case dae_residual_0 of
                 None \<Rightarrow> Inl NameError
               | Some r0 \<Rightarrow>
                   (case dae_residual_1 of
                      None \<Rightarrow> Inl NameError
                    | Some r1 \<Rightarrow> Inr [blend theta r0 r1])))
      else Inr [])"

subsection \<open>Constant and ensemble parameters\<close>

text \<open>
  \<^verbatim>\<open>
  if ((len(values) == 1 or (np.all(values) == values[0]))
          and parameter.name() not in dynamic_parameter_names):
  \<close>
  \<^verbatim>\<open>np.all(values)\<close> is the truth of "every value is non-zero"; comparing it with
  a number reads \<^verbatim>\<open>True\<close> as 1 and \<^verbatim>\<open>False\<close> as 0. The values are the
  numeric parameter values of the ensemble members.
\<close>

definition np_all :: "real list \<Rightarrow> bool" where
  "np_all values = list_all (\<lambda>v. v \<noteq> 0) values"

definition bool_as_number :: "bool \<Rightarrow> real" where
  "bool_as_number b = (if b then 1 else 0)"

definition is_constant_parameter :: "real list \<Rightarrow> string \<Rightarrow> string list \<Rightarrow> error + bool" where
  "is_constant_parameter values name dynamic_parameter_names =
     (if length values = 1 then Inr (name \<notin> set dynamic_parameter_names)
      else (case values of
              [] \<Rightarrow> Inl IndexError
            | v0 # _ \<Rightarrow>
                if bool_as_number (np_all values) = v0
                then Inr (name \<notin> set dynamic_parameter_names)
                else Inr False))"

record parameter_split =
  constant_parameters :: "string list"
  constant_parameter_values :: "real list"
  ensemble_parameters :: "string list"
  ensemble_parameter_values :: "real list list"

text \<open>
  \<^verbatim>\<open>
  ensemble_parameter_values = [[] for i in range(self.ensemble_size)]
  for i, parameter in enumerate(self.dae_variables['parameters']):
      values = [ensemble_store[ensemble_member]["parameters"][i]
                for ensemble_member in range(self.ensemble_size)]
      if ...:
          constant_parameters.append(parameter)
          constant_parameter_values.append(values[0])
      else:
          ensemble_parameters.append(parameter)
          for ensemble_member in range(self.ensemble_size):
              ensemble_parameter_values[ensemble_member].append(values[ensemble_member])
  \<close>
  \<open>store\<close> holds one parameter vector per ensemble member, each with one entry per
  parameter symbol (as the loop that fills \<^verbatim>\<open>ensemble_store\<close> builds them).
\<close>

fun split_parameters_loop ::
  "string list \<Rightarrow> real list list \<Rightarrow> (nat \<times> string) list \<Rightarrow> parameter_split
     \<Rightarrow> error + parameter_split" where
  "split_parameters_loop dynamic_parameter_names store [] acc = Inr acc"
| "split_parameters_loop dynamic_parameter_names store ((i, parameter) # rest) acc =
     (let values = map (\<lambda>parameters. parameters ! i) store in
      case is_constant_parameter values parameter dynamic_parameter_names of
        Inl e \<Rightarrow> Inl e
      | Inr True \<Rightarrow>
          split_parameters_loop dynamic_parameter_names store rest
            (acc\<lparr>constant_parameters := constant_parameters acc @ [parameter],
                 constant_parameter_values := constant_parameter_values acc @ [values ! 0]\<rparr>)
      | Inr False \<Rightarrow>
          split_parameters_loop dynamic_parameter_names store rest
            (acc\<lparr>ensemble_parameters := ensemble_parameters acc @ [parameter],
                 ensemble_parameter_values :=
                   map (\<lambda>(l, v). l @ [v]) (zip (ensemble_parameter_values acc) values)\<rparr>))"

definition split_parameters ::
  "string list \<Rightarrow> real list list \<Rightarrow> string list \<Rightarrow> error + parameter_split" where
  "split_parameters dynamic_parameter_names store parameters =
     split_parameters_loop dynamic_parameter_names store
       (zip [0 ..< length parameters] parameters)
       \<lparr>constant_parameters = [], constant_parameter_values = [],
        ensemble_parameters = [],
        ensemble_parameter_values = replicate (length store) []\<rparr>"

subsection \<open>The objective of the assembled problem\<close>

text \<open>
  What one ensemble member contributes: its own objective (an empty expression when the
  problem defines none), the path objective evaluated at the initial time and at every
  later collocation time, and its probability. The objective and the path objective are
  scalar expressions or empty; \<open>path_objective_size\<close> is
  \<^verbatim>\<open>path_objective.size1()\<close>.
\<close>

record member_terms =
  objective :: "real option"
  initial_path_objective :: real
  discretized_path_objective :: "real list"
  ensemble_member_probability :: real

text \<open>
  \<^verbatim>\<open>
  f_member = self.objective(ensemble_member)
  if f_member.size1() == 0:
      f_member = 0
  if path_objective.size1() > 0:
      initial_path_objective = path_objective_function.call(...)
      f_member += initial_path_objective[0] + ca.sum1(discretized_path_objective)
  f.append(self.ensemble_member_probability(ensemble_member) * f_member)
  \<close>
\<close>

definition f_member :: "nat \<Rightarrow> member_terms \<Rightarrow> real" where
  "f_member path_objective_size t =
     (let f0 = (case objective t of None \<Rightarrow> 0 | Some v \<Rightarrow> v)
      in if path_objective_size > 0
         then f0 + (initial_path_objective t + sum_list (discretized_path_objective t))
         else f0)"

fun objective_loop :: "nat \<Rightarrow> member_terms list \<Rightarrow> real list \<Rightarrow> real list" where
  "objective_loop path_objective_size [] f = f"
| "objective_loop path_objective_size (t # ts) f =
     objective_loop path_objective_size ts
       (f @ [ensemble_member_probability t * f_member path_objective_size t])"

text \<open>\<^verbatim>\<open>nlp = {'x': X, 'f': ca.sum1(ca.vertcat(*f)), ...}\<close>\<close>

definition nlp_objective :: "nat \<Rightarrow> member_terms list \<Rightarrow> real" where
  "nlp_objective path_objective_size members =
     sum_list (objective_loop path_objective_size members [])"


subsection \<open>Numbers of the bound and seed arrays\<close>

text \<open>
  The entries of \<^verbatim>\<open>lbx\<close>, \<^verbatim>\<open>ubx\<close>, \<^verbatim>\<open>x0\<close> and of the values of
  a time series: a real number, an infinity or not-a-number. Rounding is not modelled.
\<close>

datatype fl = Fin real | PosInf | NegInf | NaN

text \<open>Division by a nominal, with the results numpy gives for a zero divisor.\<close>

fun fl_div :: "fl \<Rightarrow> real \<Rightarrow> fl" where
  "fl_div (Fin x) n =
     (if n = 0 then (if x > 0 then PosInf else if x < 0 then NegInf else NaN)
      else Fin (x / n))"
| "fl_div PosInf n = (if n < 0 then NegInf else PosInf)"
| "fl_div NegInf n = (if n < 0 then PosInf else NegInf)"
| "fl_div NaN n = NaN"




record timeseries =
  ts_times :: "real list"
  ts_values :: "fl list"

subsection \<open>The problem\<close>

text \<open>
  What the layout reads of the problem. States, algebraic states, controls and integrated
  states are lists of names (\<^verbatim>\<open>self.differentiated_states\<close>,
  \<^verbatim>\<open>self.algebraic_states\<close>, \<^verbatim>\<open>self.controls\<close>,
  \<^verbatim>\<open>self.integrated_states\<close>); path and extra variables are symbols, with a
  name and a number of rows (\<^verbatim>\<open>size1()\<close>). \<open>times_of p v\<close> is
  \<^verbatim>\<open>self.times(v)\<close> and \<open>collocation_times p\<close> is \<^verbatim>\<open>self.times()\<close>.
  \<open>variable_nominal p v c\<close> is the nominal of component \<open>c\<close> of \<open>v\<close>: a scalar
  nominal is the same for every component.
\<close>

record problem =
  differentiated_states :: "string list"
  algebraic_states :: "string list"
  controls :: "string list"
  derivatives :: "string list"
  path_variables :: "(string \<times> nat) list"
  extra_variables :: "(string \<times> nat) list"
  integrated_states :: "string list"
  ensemble_size :: nat
  times_of :: "string \<Rightarrow> real list"
  collocation_times :: "real list"
  variable_nominal :: "string \<Rightarrow> nat \<Rightarrow> real"
  variable_is_discrete :: "string \<Rightarrow> bool"
  interpolation_method :: "string \<Rightarrow> nat"

definition path_variable_names :: "problem \<Rightarrow> string list" where
  "path_variable_names p = map fst (path_variables p)"

definition extra_variable_names :: "problem \<Rightarrow> string list" where
  "extra_variable_names p = map fst (extra_variables p)"

text \<open>
  \<^verbatim>\<open>
  self.__variable_sizes = {}
  for variable in itertools.chain(self.differentiated_states, self.algebraic_states):
      self.__variable_sizes[variable] = 1
  for mx_symbol, variable in zip(self.path_variables, self.__path_variable_names):
      self.__variable_sizes[variable] = mx_symbol.size1()
  for mx_symbol, variable in zip(self.extra_variables, self.__extra_variable_names):
      self.__variable_sizes[variable] = mx_symbol.size1()
  \<close>
\<close>

definition variable_sizes :: "problem \<Rightarrow> (string \<rightharpoonup> nat)" where
  "variable_sizes p =
     fold (\<lambda>(variable, n) sizes. sizes(variable \<mapsto> n))
       (map (\<lambda>variable. (variable, 1)) (differentiated_states p @ algebraic_states p)
        @ path_variables p @ extra_variables p)
       Map.empty"

text \<open>\<^verbatim>\<open>self.__variable_sizes.get(variable, 1)\<close>\<close>

definition variable_sizes_get :: "problem \<Rightarrow> string \<Rightarrow> nat" where
  "variable_sizes_get p variable =
     (case variable_sizes p variable of None \<Rightarrow> 1 | Some n \<Rightarrow> n)"

text \<open>
  \<^verbatim>\<open>variable_sizes[variable]\<close>, read only for names that the loops above have
  entered (lemma \<open>variable_sizes_defined\<close>), so that the key is never missing.
\<close>

definition variable_size :: "problem \<Rightarrow> string \<Rightarrow> nat" where
  "variable_size p variable = the (variable_sizes p variable)"

subsection \<open>Vector symbols that are not supported\<close>

text \<open>
  \<^verbatim>\<open>
  for variable in self.integrated_states:
      if self.__variable_sizes.get(variable, 1) > 1:
          raise NotImplementedError(
              "Vector symbol not supported for integrated state '{}'".format(variable))
  for variable in self.controls:
      if self.__variable_sizes.get(variable, 1) > 1:
          raise NotImplementedError(
              "Vector symbol not supported for control state '{}'".format(variable))
  \<close>
\<close>

fun first_vector_symbol :: "problem \<Rightarrow> string list \<Rightarrow> string option" where
  "first_vector_symbol p [] = None"
| "first_vector_symbol p (variable # rest) =
     (if variable_sizes_get p variable > 1 then Some variable
      else first_vector_symbol p rest)"

definition quoted :: "string \<Rightarrow> string" where
  "quoted variable = [CHR 0x27] @ variable @ [CHR 0x27]"

definition check_vector_symbols :: "problem \<Rightarrow> error option" where
  "check_vector_symbols p =
     (case first_vector_symbol p (integrated_states p) of
        Some variable \<Rightarrow>
          Some (NotImplementedError
            (''Vector symbol not supported for integrated state '' @ quoted variable))
      | None \<Rightarrow>
          (case first_vector_symbol p (controls p) of
             Some variable \<Rightarrow>
               Some (NotImplementedError
                 (''Vector symbol not supported for control state '' @ quoted variable))
           | None \<Rightarrow> None))"

subsection \<open>The layout of the decision vector\<close>

text \<open>An entry of an index map: \<^verbatim>\<open>slice(start, stop)\<close> or a single offset.\<close>

datatype index = Slice nat nat | Offset nat

fun positions :: "index \<Rightarrow> nat set" where
  "positions (Slice start stop) = {start ..< stop}"
| "positions (Offset i) = {i}"

text \<open>\<^verbatim>\<open>xs[offset:offset + len(vs)] = vs\<close>, inside the array.\<close>

definition assign_slice :: "'a list \<Rightarrow> nat \<Rightarrow> 'a list \<Rightarrow> 'a list" where
  "assign_slice xs offset vs = take offset xs @ vs @ drop (offset + length vs) xs"

datatype bound = Series timeseries | Const fl

record control_discretization =
  dc_count :: nat
  dc_discrete :: "bool list"
  dc_lbx :: "fl list"
  dc_ubx :: "fl list"
  dc_x0 :: "fl list"
  dc_indices :: "(string \<rightharpoonup> index) list"

text \<open>
  The body of the second loop of \<^verbatim>\<open>discretize_controls\<close>, for one control:
  \<^verbatim>\<open>
  times = self.times(variable)
  n_times = len(times)
  for ensemble_member in range(self.ensemble_size):
      indices[ensemble_member][variable] = slice(offset, offset + n_times)
  discrete[offset:offset + n_times] = self.variable_is_discrete(variable)
  try:
      bound = bounds[variable]
  except KeyError:
      pass
  else:
      nominal = self.variable_nominal(variable)
      interpolation_method = self.interpolation_method(variable)
      if bound[0] is not None:
          if isinstance(bound[0], Timeseries):
              lbx[offset:offset + n_times] = self.interpolate(
                  times, bound[0].times, bound[0].values, -np.inf, -np.inf,
                  interpolation_method) / nominal
          else:
              lbx[offset:offset + n_times] = bound[0] / nominal
      if bound[1] is not None:
          ... (ubx, with +np.inf)
      try:
          seed_k = seed[variable]
          x0[offset:offset + n_times] = self.interpolate(
              times, seed_k.times, seed_k.values, 0, 0, interpolation_method) / nominal
      except KeyError:
          pass
  offset += n_times
  \<close>
  \<open>interpolate method t series f_left f_right\<close> is \<^verbatim>\<open>self.interpolate\<close> at
  one time \<open>t\<close>; on a list of times it is applied to each.
\<close>

definition interpolate_descaled ::
  "(nat \<Rightarrow> real \<Rightarrow> timeseries \<Rightarrow> fl \<Rightarrow> fl \<Rightarrow> fl) \<Rightarrow> problem \<Rightarrow> string \<Rightarrow> timeseries
     \<Rightarrow> fl \<Rightarrow> fl list" where
  "interpolate_descaled interpolate p variable series fill =
     map (\<lambda>t. fl_div (interpolate (interpolation_method p variable) t series fill fill)
                 (variable_nominal p variable 0))
       (times_of p variable)"

definition control_bound_values ::
  "(nat \<Rightarrow> real \<Rightarrow> timeseries \<Rightarrow> fl \<Rightarrow> fl \<Rightarrow> fl) \<Rightarrow> problem \<Rightarrow> string \<Rightarrow> bound
     \<Rightarrow> fl \<Rightarrow> fl list" where
  "control_bound_values interpolate p variable b fill =
     (case b of
        Series series \<Rightarrow> interpolate_descaled interpolate p variable series fill
      | Const c \<Rightarrow>
          replicate (length (times_of p variable)) (fl_div c (variable_nominal p variable 0)))"

definition discretize_control ::
  "(nat \<Rightarrow> real \<Rightarrow> timeseries \<Rightarrow> fl \<Rightarrow> fl \<Rightarrow> fl) \<Rightarrow> problem
     \<Rightarrow> (string \<rightharpoonup> bound option \<times> bound option) \<Rightarrow> (string \<rightharpoonup> timeseries)
     \<Rightarrow> string \<Rightarrow> nat \<Rightarrow> control_discretization \<Rightarrow> control_discretization" where
  "discretize_control interpolate p bounds seed variable offset acc =
     (let n_times = length (times_of p variable);
          acc1 = acc\<lparr>
            dc_indices :=
              map (\<lambda>indices. indices(variable \<mapsto> Slice offset (offset + n_times)))
                (dc_indices acc),
            dc_discrete :=
              assign_slice (dc_discrete acc) offset
                (replicate n_times (variable_is_discrete p variable))\<rparr>
      in case bounds variable of
           None \<Rightarrow> acc1
         | Some (lower, upper) \<Rightarrow>
             (let acc2 =
                    (case lower of
                       None \<Rightarrow> acc1
                     | Some b \<Rightarrow>
                         acc1\<lparr>dc_lbx := assign_slice (dc_lbx acc1) offset
                                 (control_bound_values interpolate p variable b NegInf)\<rparr>);
                  acc3 =
                    (case upper of
                       None \<Rightarrow> acc2
                     | Some b \<Rightarrow>
                         acc2\<lparr>dc_ubx := assign_slice (dc_ubx acc2) offset
                                 (control_bound_values interpolate p variable b PosInf)\<rparr>)
              in case seed variable of
                   None \<Rightarrow> acc3
                 | Some seed_k \<Rightarrow>
                     acc3\<lparr>dc_x0 := assign_slice (dc_x0 acc3) offset
                             (interpolate_descaled interpolate p variable seed_k (Fin 0))\<rparr>))"

fun discretize_controls_loop ::
  "(nat \<Rightarrow> real \<Rightarrow> timeseries \<Rightarrow> fl \<Rightarrow> fl \<Rightarrow> fl) \<Rightarrow> problem
     \<Rightarrow> (string \<rightharpoonup> bound option \<times> bound option) \<Rightarrow> (string \<rightharpoonup> timeseries)
     \<Rightarrow> string list \<Rightarrow> nat \<Rightarrow> control_discretization \<Rightarrow> control_discretization" where
  "discretize_controls_loop interpolate p bounds seed [] offset acc = acc"
| "discretize_controls_loop interpolate p bounds seed (variable # rest) offset acc =
     discretize_controls_loop interpolate p bounds seed rest
       (offset + length (times_of p variable))
       (discretize_control interpolate p bounds seed variable offset acc)"

text \<open>
  \<^verbatim>\<open>
  count = 0
  for variable in self.controls:
      count += len(self.times(variable))
  seed = self.seed(ensemble_member=0)
  indices = [{} for ensemble_member in range(self.ensemble_size)]
  discrete = np.zeros(count, dtype=np.bool)
  lbx = np.full(count, -np.inf); ubx = np.full(count, np.inf); x0 = np.zeros(count)
  \<close>
\<close>

definition control_count :: "problem \<Rightarrow> nat" where
  "control_count p = sum_list (map (\<lambda>variable. length (times_of p variable)) (controls p))"

definition discretize_controls ::
  "(nat \<Rightarrow> real \<Rightarrow> timeseries \<Rightarrow> fl \<Rightarrow> fl \<Rightarrow> fl) \<Rightarrow> problem
     \<Rightarrow> (string \<rightharpoonup> bound option \<times> bound option) \<Rightarrow> (string \<rightharpoonup> timeseries)
     \<Rightarrow> control_discretization" where
  "discretize_controls interpolate p bounds seed =
     discretize_controls_loop interpolate p bounds seed (controls p) 0
       \<lparr>dc_count = control_count p,
        dc_discrete = replicate (control_count p) False,
        dc_lbx = replicate (control_count p) NegInf,
        dc_ubx = replicate (control_count p) PosInf,
        dc_x0 = replicate (control_count p) (Fin 0),
        dc_indices = replicate (ensemble_size p) Map.empty\<rparr>"

text \<open>
  The size and the index maps of \<^verbatim>\<open>discretize_states\<close>. Its later loops, which
  fill the discreteness, bound and seed arrays, walk the same offsets and are not part of
  the layout.
  \<^verbatim>\<open>
  for variable in itertools.chain(self.differentiated_states, self.algebraic_states,
                                  self.__path_variable_names):
      if variable in self.integrated_states:
          ensemble_member_size += 1  # Initial state
      else:
          ensemble_member_size += variable_sizes[variable] * len(self.times(variable))
  for variable in self.__extra_variable_names:
      ensemble_member_size += variable_sizes[variable]
  ensemble_member_size += len(self.dae_variables['derivatives'])
  count = self.ensemble_size * ensemble_member_size
  \<close>
\<close>

definition state_names :: "problem \<Rightarrow> string list" where
  "state_names p = differentiated_states p @ algebraic_states p @ path_variable_names p"

definition state_slots :: "problem \<Rightarrow> string \<Rightarrow> nat" where
  "state_slots p variable =
     (if variable \<in> set (integrated_states p) then 1
      else variable_size p variable * length (times_of p variable))"

definition ensemble_member_size :: "problem \<Rightarrow> nat" where
  "ensemble_member_size p =
     sum_list (map (state_slots p) (state_names p))
     + sum_list (map (variable_size p) (extra_variable_names p))
     + length (derivatives p)"

text \<open>
  \<^verbatim>\<open>
  for variable in itertools.chain(...):
      variable_size = variable_sizes[variable]
      if variable in self.integrated_states:
          assert variable_size == 1
          indices[ensemble_member][variable] = offset
          offset += 1
      else:
          n_times = len(self.times(variable))
          indices[ensemble_member][variable] = slice(offset, offset + n_times * variable_size)
          offset += n_times * variable_size
  \<close>
\<close>

fun index_states ::
  "problem \<Rightarrow> string list \<Rightarrow> nat \<Rightarrow> (string \<rightharpoonup> index) \<Rightarrow> error + nat \<times> (string \<rightharpoonup> index)" where
  "index_states p [] offset indices = Inr (offset, indices)"
| "index_states p (variable # rest) offset indices =
     (if variable \<in> set (integrated_states p) then
        (if variable_size p variable = 1
         then index_states p rest (offset + 1) (indices(variable \<mapsto> Offset offset))
         else Inl AssertionError)
      else
        (let n = length (times_of p variable) * variable_size p variable
         in index_states p rest (offset + n) (indices(variable \<mapsto> Slice offset (offset + n)))))"

text \<open>
  \<^verbatim>\<open>
  for extra_variable in self.__extra_variable_names:
      variable_size = variable_sizes[extra_variable]
      indices[ensemble_member][extra_variable] = slice(offset, offset + variable_size)
      offset += variable_size
  \<close>
\<close>

fun index_extra_variables ::
  "problem \<Rightarrow> string list \<Rightarrow> nat \<Rightarrow> (string \<rightharpoonup> index) \<Rightarrow> nat \<times> (string \<rightharpoonup> index)" where
  "index_extra_variables p [] offset indices = (offset, indices)"
| "index_extra_variables p (variable # rest) offset indices =
     index_extra_variables p rest (offset + variable_size p variable)
       (indices(variable \<mapsto> Slice offset (offset + variable_size p variable)))"

text \<open>The index map of one ensemble member, whose block starts at
  \<^verbatim>\<open>ensemble_member * ensemble_member_size\<close>.\<close>

definition index_member :: "problem \<Rightarrow> nat \<Rightarrow> error + (string \<rightharpoonup> index)" where
  "index_member p ensemble_member =
     (case index_states p (state_names p) (ensemble_member * ensemble_member_size p) Map.empty of
        Inl e \<Rightarrow> Inl e
      | Inr (offset, indices) \<Rightarrow>
          Inr (snd (index_extra_variables p (extra_variable_names p) offset indices)))"

fun index_members :: "problem \<Rightarrow> nat list \<Rightarrow> error + (string \<rightharpoonup> index) list" where
  "index_members p [] = Inr []"
| "index_members p (ensemble_member # rest) =
     (case index_member p ensemble_member of
        Inl e \<Rightarrow> Inl e
      | Inr indices \<Rightarrow>
          (case index_members p rest of
             Inl e \<Rightarrow> Inl e
           | Inr others \<Rightarrow> Inr (indices # others)))"

definition discretize_states :: "problem \<Rightarrow> error + nat \<times> (string \<rightharpoonup> index) list" where
  "discretize_states p =
     (case index_members p [0 ..< ensemble_size p] of
        Inl e \<Rightarrow> Inl e
      | Inr indices \<Rightarrow> Inr (ensemble_size p * ensemble_member_size p, indices))"

text \<open>
  The part of \<^verbatim>\<open>transcribe\<close> that fixes the layout: the size cache, the check
  for vector symbols, the two discretizations, the merge of the index maps and the
  vector of optimization symbols. (The steps in between cache the initial step sizes and
  the ensemble data; they neither read nor change the layout.)
  \<^verbatim>\<open>
  control_size, ..., indices_control = self.discretize_controls(bounds)
  state_size, ..., indices_state = self.discretize_states(bounds)
  self.__indices = indices_control
  for ensemble_member in range(self.ensemble_size):
      for key, value in indices_state[ensemble_member].items():
          if isinstance(value, slice):
              value = slice(value.start + control_size, value.stop + control_size)
          else:
              value += control_size
          self.__indices[ensemble_member][key] = value
  X = ca.MX.sym('X', control_size + state_size)
  \<close>
\<close>

fun shift_index :: "nat \<Rightarrow> index \<Rightarrow> index" where
  "shift_index control_size (Slice start stop) = Slice (start + control_size) (stop + control_size)"
| "shift_index control_size (Offset i) = Offset (i + control_size)"

definition merge_indices ::
  "nat \<Rightarrow> (string \<rightharpoonup> index) \<Rightarrow> (string \<rightharpoonup> index) \<Rightarrow> (string \<rightharpoonup> index)" where
  "merge_indices control_size indices_control indices_state =
     indices_control ++ (map_option (shift_index control_size) \<circ> indices_state)"

record layout =
  control_size :: nat
  state_size :: nat
  indices :: "(string \<rightharpoonup> index) list"
  solver_input_size :: nat

definition transcribe_layout ::
  "(nat \<Rightarrow> real \<Rightarrow> timeseries \<Rightarrow> fl \<Rightarrow> fl \<Rightarrow> fl) \<Rightarrow> problem
     \<Rightarrow> (string \<rightharpoonup> bound option \<times> bound option) \<Rightarrow> (string \<rightharpoonup> timeseries)
     \<Rightarrow> error + layout" where
  "transcribe_layout interpolate p bounds seed =
     (case check_vector_symbols p of
        Some e \<Rightarrow> Inl e
      | None \<Rightarrow>
          (let dc = discretize_controls interpolate p bounds seed in
           case discretize_states p of
             Inl e \<Rightarrow> Inl e
           | Inr (count, indices_state) \<Rightarrow>
               Inr \<lparr>control_size = dc_count dc,
                    state_size = count,
                    indices = map (\<lambda>(c, s). merge_indices (dc_count dc) c s)
                                (zip (dc_indices dc) indices_state),
                    solver_input_size = dc_count dc + count\<rparr>))"

subsection \<open>Initial values from the history\<close>








subsection \<open>Delayed feedback\<close>











subsection \<open>Decoding a solved vector\<close>

text \<open>
  A decoded result: a one-dimensional array, or a two-dimensional one as its rows.
\<close>

datatype series = Flat "real list" | Rows "real list list"

text \<open>\<^verbatim>\<open>X[start:stop]\<close>; numpy cuts the slice at the end of the array.\<close>

definition slice :: "'a list \<Rightarrow> nat \<Rightarrow> nat \<Rightarrow> 'a list" where
  "slice xs start stop = take (stop - start) (drop start xs)"

text \<open>\<^verbatim>\<open>self.variable_nominal(variable) * xs\<close> for a scalar variable.\<close>

definition scaled :: "problem \<Rightarrow> string \<Rightarrow> real list \<Rightarrow> real list" where
  "scaled p variable xs = map (\<lambda>x. variable_nominal p variable 0 * x) xs"

text \<open>
  \<^verbatim>\<open>
  offset = 0
  for variable in self.controls:
      n_times = len(self.times(variable))
      results[variable] = self.variable_nominal(variable) * X[offset:offset + n_times]
      offset += n_times
  \<close>
\<close>

fun extract_controls_loop ::
  "problem \<Rightarrow> real list \<Rightarrow> string list \<Rightarrow> nat \<Rightarrow> (string \<rightharpoonup> series) \<Rightarrow> (string \<rightharpoonup> series)" where
  "extract_controls_loop p X [] offset results = results"
| "extract_controls_loop p X (variable # rest) offset results =
     (let n_times = length (times_of p variable)
      in extract_controls_loop p X rest (offset + n_times)
           (results(variable \<mapsto> Flat (scaled p variable (slice X offset (offset + n_times))))))"

definition extract_controls :: "problem \<Rightarrow> real list \<Rightarrow> (string \<rightharpoonup> series)" where
  "extract_controls p X = extract_controls_loop p X (controls p) 0 Map.empty"

text \<open>
  What \<^verbatim>\<open>extract_states\<close> reads besides the problem and the solver output:
  the sizes that \<^verbatim>\<open>transcribe\<close> stored, the number of rows of each stored
  integrator expression (\<^verbatim>\<open>self.integrators[variable].size1()\<close>) and the
  evaluated integrator outputs \<^verbatim>\<open>f(X)\<close>, the constant inputs already
  interpolated on their grids, and the initial step sizes.
\<close>

record extraction =
  ex_control_size :: nat
  ex_state_size :: nat
  ex_integrators :: "string \<rightharpoonup> nat"
  ex_integrators_output :: "real list"
  ex_constant_inputs :: "(string \<times> real list) list"
  ex_initial_dt :: "string \<rightharpoonup> real"

text \<open>
  \<^verbatim>\<open>
  j = 0
  for variable in self.integrated_states:
      n = self.integrators[variable].size1()
      results[variable] = self.variable_nominal(variable) * np.array(integrators_output[j:j + n, 0]).ravel()
      j += n
  \<close>
\<close>

fun extract_integrated ::
  "problem \<Rightarrow> extraction \<Rightarrow> string list \<Rightarrow> nat \<Rightarrow> (string \<rightharpoonup> series)
     \<Rightarrow> error + (string \<rightharpoonup> series)" where
  "extract_integrated p e [] j results = Inr results"
| "extract_integrated p e (variable # rest) j results =
     (case ex_integrators e variable of
        None \<Rightarrow> Inl (KeyError variable)
      | Some n \<Rightarrow>
          extract_integrated p e rest (j + n)
            (results(variable \<mapsto>
               Flat (scaled p variable (slice (ex_integrators_output e) j (j + n))))))"

text \<open>
  \<^verbatim>\<open>
  for variable in itertools.chain(self.differentiated_states, self.algebraic_states):
      if variable in self.integrated_states:
          offset += 1
      else:
          n_times = len(self.times(variable))
          results[variable] = self.variable_nominal(variable) * X[offset:offset + n_times]
          offset += n_times
  \<close>
\<close>

fun extract_collocated ::
  "problem \<Rightarrow> real list \<Rightarrow> string list \<Rightarrow> nat \<Rightarrow> (string \<rightharpoonup> series)
     \<Rightarrow> nat \<times> (string \<rightharpoonup> series)" where
  "extract_collocated p X [] offset results = (offset, results)"
| "extract_collocated p X (variable # rest) offset results =
     (if variable \<in> set (integrated_states p)
      then extract_collocated p X rest (offset + 1) results
      else
        (let n_times = length (times_of p variable)
         in extract_collocated p X rest (offset + n_times)
              (results(variable \<mapsto>
                 Flat (scaled p variable (slice X offset (offset + n_times)))))))"

text \<open>
  \<^verbatim>\<open>results[variable] = np.interp(self.times(variable), constant_input.times, constant_input.values)\<close>
  for every constant input of the DAE that has data.
\<close>

fun extract_constant_inputs ::
  "(string \<times> real list) list \<Rightarrow> (string \<rightharpoonup> series) \<Rightarrow> (string \<rightharpoonup> series)" where
  "extract_constant_inputs [] results = results"
| "extract_constant_inputs ((variable, interpolated) # rest) results =
     extract_constant_inputs rest (results(variable \<mapsto> Flat interpolated))"

text \<open>
  \<^verbatim>\<open>
  for variable in self.__path_variable_names:
      variable_size = variable_sizes[variable]
      if variable_size > 1:
          results[variable] = X[offset:offset + n_collocation_times * variable_size] \
              .reshape((variable_size, n_collocation_times)).transpose()
      else:
          results[variable] = X[offset:offset + n_collocation_times]
      results[variable] *= self.variable_nominal(variable)
      offset += n_collocation_times * variable_size
  \<close>
  Row \<open>t\<close> of the reshaped and transposed slice holds, for every component \<open>c\<close>,
  entry \<open>c * n + t\<close> of the slice; the nominal is that of the component.
\<close>

definition path_rows :: "problem \<Rightarrow> string \<Rightarrow> nat \<Rightarrow> nat \<Rightarrow> real list \<Rightarrow> real list list" where
  "path_rows p variable width n xs =
     map (\<lambda>t. map (\<lambda>c. xs ! (c * n + t) * variable_nominal p variable c) [0 ..< width])
       [0 ..< n]"

fun extract_path_variables ::
  "problem \<Rightarrow> real list \<Rightarrow> string list \<Rightarrow> nat \<Rightarrow> (string \<rightharpoonup> series)
     \<Rightarrow> error + nat \<times> (string \<rightharpoonup> series)" where
  "extract_path_variables p X [] offset results = Inr (offset, results)"
| "extract_path_variables p X (variable # rest) offset results =
     (let n = length (collocation_times p);
          width = variable_size p variable
      in if width > 1 then
           (if length (slice X offset (offset + n * width)) \<noteq> n * width then Inl ValueError
            else extract_path_variables p X rest (offset + n * width)
                   (results(variable \<mapsto>
                      Rows (path_rows p variable width n (slice X offset (offset + n * width))))))
         else extract_path_variables p X rest (offset + n * width)
                (results(variable \<mapsto> Flat (scaled p variable (slice X offset (offset + n))))))"

text \<open>
  \<^verbatim>\<open>
  for variable in self.__extra_variable_names:
      variable_size = variable_sizes[variable]
      if variable_size > 1:
          results[variable] = X[offset:offset + variable_size][None, :]
      else:
          results[variable] = X[offset].ravel()
      results[variable] *= self.variable_nominal(variable)
      offset += variable_size
  \<close>
\<close>

definition scaled_components :: "problem \<Rightarrow> string \<Rightarrow> real list \<Rightarrow> real list" where
  "scaled_components p variable xs =
     map (\<lambda>(c, x). x * variable_nominal p variable c) (zip [0 ..< length xs] xs)"

fun extract_extra_variables ::
  "problem \<Rightarrow> real list \<Rightarrow> string list \<Rightarrow> nat \<Rightarrow> (string \<rightharpoonup> series)
     \<Rightarrow> error + nat \<times> (string \<rightharpoonup> series)" where
  "extract_extra_variables p X [] offset results = Inr (offset, results)"
| "extract_extra_variables p X (variable # rest) offset results =
     (let width = variable_size p variable
      in if width > 1 then
           extract_extra_variables p X rest (offset + width)
             (results(variable \<mapsto>
                Rows [scaled_components p variable (slice X offset (offset + width))]))
         else if offset < length X then
           extract_extra_variables p X rest (offset + width)
             (results(variable \<mapsto> Flat (scaled p variable [X ! offset])))
         else Inl IndexError)"

text \<open>
  \<^verbatim>\<open>
  for k, (state_name, der_name) in enumerate(zip(self.__differentiated_states, self.__derivative_names)):
      try:
          nominal = self.variable_nominal(state_name)
          dt = self.__initial_dt[state_name]
          results["initial_" + der_name] = nominal / dt * X[offset + k].ravel()
      except KeyError:
          pass
  \<close>
\<close>

fun extract_initial_derivatives ::
  "problem \<Rightarrow> extraction \<Rightarrow> real list \<Rightarrow> nat \<Rightarrow> (nat \<times> string \<times> string) list
     \<Rightarrow> (string \<rightharpoonup> series) \<Rightarrow> error + (string \<rightharpoonup> series)" where
  "extract_initial_derivatives p e X offset [] results = Inr results"
| "extract_initial_derivatives p e X offset ((k, state_name, der_name) # rest) results =
     (case ex_initial_dt e state_name of
        None \<Rightarrow> extract_initial_derivatives p e X offset rest results
      | Some step \<Rightarrow>
          if offset + k < length X then
            extract_initial_derivatives p e X offset rest
              (results(''initial_'' @ der_name \<mapsto>
                 Flat [variable_nominal p state_name 0 / step * X ! (offset + k)]))
          else Inl IndexError)"

definition initial_derivative_names :: "problem \<Rightarrow> string list" where
  "initial_derivative_names p = map (\<lambda>der_name. ''initial_'' @ der_name) (derivatives p)"

text \<open>
  \<^verbatim>\<open>
  control_size = self.__control_size
  ensemble_member_size = int(self.__state_size / self.ensemble_size)
  ...
  offset = control_size + ensemble_member * ensemble_member_size
  \<close>
\<close>

definition extract_states ::
  "problem \<Rightarrow> extraction \<Rightarrow> real list \<Rightarrow> nat \<Rightarrow> error + (string \<rightharpoonup> series)" where
  "extract_states p e X ensemble_member =
     (if ensemble_size p = 0 then Inl ZeroDivisionError
      else
        (let member_size = ex_state_size e div ensemble_size p in
         case extract_integrated p e (integrated_states p) 0 Map.empty of
           Inl err \<Rightarrow> Inl err
         | Inr results1 \<Rightarrow>
             (let (offset2, results2) =
                    extract_collocated p X (differentiated_states p @ algebraic_states p)
                      (ex_control_size e + ensemble_member * member_size) results1;
                  results3 = extract_constant_inputs (ex_constant_inputs e) results2
              in case extract_path_variables p X (path_variable_names p) offset2 results3 of
                   Inl err \<Rightarrow> Inl err
                 | Inr (offset4, results4) \<Rightarrow>
                     (case extract_extra_variables p X (extra_variable_names p) offset4 results4 of
                        Inl err \<Rightarrow> Inl err
                      | Inr (offset5, results5) \<Rightarrow>
                          extract_initial_derivatives p e X offset5
                            (zip [0 ..< length (differentiated_states p)]
                               (zip (differentiated_states p) (derivatives p)))
                            results5))))"

text \<open>
  A problem and its extraction data as \<^verbatim>\<open>transcribe\<close> leaves them: the names
  of all decision variables pairwise distinct and distinct from the other keys of the
  results; integrated states among the (algebraic) states, each with its integrator;
  path and extra symbols with at least one row; path variables on the collocation grid.
\<close>

definition extractable :: "problem \<Rightarrow> extraction \<Rightarrow> bool" where
  "extractable p e \<longleftrightarrow>
     distinct (controls p @ state_names p @ extra_variable_names p)
   \<and> set (integrated_states p) \<subseteq> set (differentiated_states p @ algebraic_states p)
   \<and> (\<forall>v\<in>set (integrated_states p). ex_integrators e v \<noteq> None)
   \<and> (\<forall>(v, n)\<in>set (path_variables p @ extra_variables p). 1 \<le> n)
   \<and> (\<forall>v\<in>set (path_variable_names p).
         length (times_of p v) = length (collocation_times p))
   \<and> set (map fst (ex_constant_inputs e))
       \<inter> set (state_names p @ extra_variable_names p) = {}
   \<and> set (initial_derivative_names p)
       \<inter> set (state_names p @ extra_variable_names p) = {}"

subsection \<open>Example problems\<close>

text \<open>
  One state \<open>x\<close> and one control \<open>u\<close> on the grid \<open>[0, 1]\<close>, two ensemble
  members.
\<close>

definition ex_layout :: problem where
  "ex_layout =
     \<lparr>differentiated_states = [''x''], algebraic_states = [],
      controls = [''u''], derivatives = [''der(x)''],
      path_variables = [], extra_variables = [],
      integrated_states = [], ensemble_size = 2,
      times_of = (\<lambda>variable. [0, 1]), collocation_times = [0, 1],
      variable_nominal = (\<lambda>variable c. 1), variable_is_discrete = (\<lambda>variable. False),
      interpolation_method = (\<lambda>variable. 0)\<rparr>"


text \<open>
  A seed for the control \<open>u\<close>; a history that gives \<open>x\<close> the value 5 at the initial
  time; the index lists of member 0 in \<open>ex_layout\<close>; bound arrays with the user's
  bounds \<open>[0, 1]\<close> on the first slot of \<open>x\<close>; and an interpolation that returns the
  first sample of a series.
\<close>

definition ex_seed :: "string \<rightharpoonup> timeseries" where
  "ex_seed = [''u'' \<mapsto> \<lparr>ts_times = [0, 1], ts_values = [Fin 4, Fin 6]\<rparr>]"




definition first_sample :: "nat \<Rightarrow> real \<Rightarrow> timeseries \<Rightarrow> fl \<Rightarrow> fl \<Rightarrow> fl" where
  "first_sample method t series f_left f_right =
     (case ts_values series of [] \<Rightarrow> f_left | v # _ \<Rightarrow> v)"





text \<open>
  The extraction data of \<open>ex_layout\<close>; and a problem whose state \<open>x\<close> is
  integrated, with an integrator output of 25 after the first step.
\<close>

definition ex_extraction :: extraction where
  "ex_extraction =
     \<lparr>ex_control_size = 2, ex_state_size = 6, ex_integrators = Map.empty,
      ex_integrators_output = [], ex_constant_inputs = [],
      ex_initial_dt = [''x'' \<mapsto> 1]\<rparr>"

definition ex_integrated :: problem where
  "ex_integrated =
     \<lparr>differentiated_states = [''x''], algebraic_states = [],
      controls = [''u''], derivatives = [''der(x)''],
      path_variables = [], extra_variables = [],
      integrated_states = [''x''], ensemble_size = 1,
      times_of = (\<lambda>variable. [0, 1]), collocation_times = [0, 1],
      variable_nominal = (\<lambda>variable c. 1), variable_is_discrete = (\<lambda>variable. False),
      interpolation_method = (\<lambda>variable. 0)\<rparr>"

definition ex_integrated_extraction :: extraction where
  "ex_integrated_extraction =
     \<lparr>ex_control_size = 2, ex_state_size = 2, ex_integrators = [''x'' \<mapsto> 1],
      ex_integrators_output = [25], ex_constant_inputs = [],
      ex_initial_dt = [''x'' \<mapsto> 1]\<rparr>"

section \<open>Properties\<close>

subsection \<open>The DAE splitter\<close>

lemma contains_derivative_iff:
  "contains_derivative depends_on output ders \<longleftrightarrow> (\<exists>d \<in> set ders. depends_on output d)"
  by (induction ders) auto

lemma split_dae_loop_filter:
  "split_dae_loop depends_on ders outputs (ri, rc) =
     (ri @ filter (\<lambda>r. contains_derivative depends_on r ders) outputs,
      rc @ filter (\<lambda>r. \<not> contains_derivative depends_on r ders) outputs)"
  by (induction outputs arbitrary: ri rc) auto

lemma split_derivatives_set:
  "length states = length ders \<Longrightarrow>
   \<exists>idr cdr. split_derivatives integ states ders = Inr (idr, cdr)
     \<and> set idr = {ders ! k | k. k < length states \<and> states ! k \<in> set integ}"
proof (induction integ states ders rule: split_derivatives.induct)
  case (1 integ ders)
  then show ?case by simp
next
  case (2 integ x xs)
  then show ?case by simp
next
  case (3 integ x xs d ds)
  then have "length xs = length ds" by simp
  with 3 obtain idr cdr where
    r: "split_derivatives integ xs ds = Inr (idr, cdr)" and
    s: "set idr = {ds ! k | k. k < length xs \<and> xs ! k \<in> set integ}"
    by blast
  have shift: "{(d # ds) ! k | k. k < length (x # xs) \<and> (x # xs) ! k \<in> set integ}
      = (if x \<in> set integ then {d} else {})
        \<union> {ds ! k | k. k < length xs \<and> xs ! k \<in> set integ}"
    (is "?L = ?R")
  proof (rule set_eqI)
    fix y
    show "y \<in> ?L \<longleftrightarrow> y \<in> ?R"
    proof
      assume "y \<in> ?L"
      then obtain k where k: "k < length (x # xs)" "(x # xs) ! k \<in> set integ"
        "y = (d # ds) ! k" by blast
      then show "y \<in> ?R" by (cases k) auto
    next
      assume "y \<in> ?R"
      then consider "x \<in> set integ" "y = d"
        | k where "k < length xs" "xs ! k \<in> set integ" "y = ds ! k"
        by (auto split: if_splits)
      then show "y \<in> ?L"
      proof cases
        case 1
        then have "0 < length (x # xs) \<and> (x # xs) ! 0 \<in> set integ
          \<and> y = (d # ds) ! 0" by simp
        then show ?thesis by blast
      next
        case 2
        then have "Suc k < length (x # xs) \<and> (x # xs) ! Suc k \<in> set integ
          \<and> y = (d # ds) ! Suc k" by simp
        then show ?thesis by blast
      qed
    qed
  qed
  show ?case using r s shift by auto
qed

lemma contains_integrated_derivative:
  assumes "length states = length ders"
    and "split_derivatives integ states ders = Inr (idr, cdr)"
  shows "contains_derivative depends_on row idr
     \<longleftrightarrow> on_integrated_derivative depends_on integ states ders row"
proof -
  from split_derivatives_set [OF assms(1), of integ] assms(2)
  have "set idr = {ders ! k | k. k < length states \<and> states ! k \<in> set integ}"
    by auto
  then show ?thesis
    unfolding contains_derivative_iff on_integrated_derivative_def by auto
qed

text \<open>
  Claim C3. The splitter sorts the residual rows one by one: a row goes to the integrated
  subset exactly when it depends on the derivative symbol of a state declared integrated,
  and to the collocated subset otherwise. Both subsets are the rows of the residual in
  their original order, every row is in exactly one of them, and the sizes add up.
\<close>

theorem split_dae_rowwise:
  assumes "length states = length ders"
  shows "\<exists>ri rc.
      split_dae depends_on integ states ders rows = Inr (ri, rc)
    \<and> ri = filter (on_integrated_derivative depends_on integ states ders) rows
    \<and> rc = filter (\<lambda>r. \<not> on_integrated_derivative depends_on integ states ders r) rows
    \<and> subseq ri rows \<and> subseq rc rows
    \<and> length ri + length rc = length rows
    \<and> set ri \<inter> set rc = {} \<and> set ri \<union> set rc = set rows"
proof -
  let ?P = "on_integrated_derivative depends_on integ states ders"
  from split_derivatives_set [OF assms, of integ] obtain idr cdr where
    sd: "split_derivatives integ states ders = Inr (idr, cdr)" by blast
  have c: "\<And>r. contains_derivative depends_on r idr \<longleftrightarrow> ?P r"
    by (rule contains_integrated_derivative [OF assms sd])
  have "split_dae depends_on integ states ders rows
      = Inr (filter ?P rows, filter (\<lambda>r. \<not> ?P r) rows)"
    by (simp add: split_dae_def sd split_dae_loop_filter c)
  moreover have "length (filter ?P rows) + length (filter (\<lambda>r. \<not> ?P r) rows) = length rows"
    by (rule sum_length_filter_compl)
  moreover have "set (filter ?P rows) \<inter> set (filter (\<lambda>r. \<not> ?P r) rows) = {}" by auto
  moreover have "set (filter ?P rows) \<union> set (filter (\<lambda>r. \<not> ?P r) rows) = set rows" by auto
  ultimately show ?thesis by simp
qed

theorem split_dae_rowwise_witness:
  "length [''x'', ''y''] = length [''der(x)'', ''der(y)'']
   \<and> split_dae (\<lambda>row sym. sym \<in> set row) [''x''] [''x'', ''y''] [''der(x)'', ''der(y)'']
       [[''der(x)'', ''u''], [''y''], [''der(y)'', ''x'']]
     = Inr ([[''der(x)'', ''u'']], [[''y''], [''der(y)'', ''x'']])"
  using split_dae_rowwise [of "[''x'', ''y'']" "[''der(x)'', ''der(y)'']"
      "\<lambda>row sym. sym \<in> set row" "[''x'']" "[[''der(x)'', ''u''], [''y''], [''der(y)'', ''x'']]"]
  by (simp add: split_dae_def)

subsection \<open>The theta-method collocation constraint\<close>

text \<open>
  Claim C2. With collocated variables present, the constraint block of an interval is
  the collocated residual at the interval's end point when \<open>theta = 1\<close>, at its start
  point when \<open>theta = 0\<close>, and \<open>(1 - theta)\<close> times the start-point residual plus
  \<open>theta\<close> times the end-point residual for \<open>theta\<close> strictly between the two.
\<close>

theorem collocation_constraint_theta:
  assumes "collocated_variables \<noteq> []"
  shows "(theta = 1 \<longrightarrow>
            collocation_constraint theta F collocated_variables ps t0 s
              = Inr [F ps (end_point t0 s)])
       \<and> (theta = 0 \<longrightarrow>
            collocation_constraint theta F collocated_variables ps t0 s
              = Inr [F ps (start_point t0 s)])
       \<and> (0 < theta \<and> theta < 1 \<longrightarrow>
            collocation_constraint theta F collocated_variables ps t0 s
              = Inr [map (\<lambda>(r0, r1). (1 - theta) * r0 + theta * r1)
                       (zip (F ps (start_point t0 s)) (F ps (end_point t0 s)))])"
  using assms by (simp add: collocation_constraint_def blend_def)

theorem collocation_constraint_theta_witness:
  "[''x''] \<noteq> []
   \<and> collocation_constraint 1 (\<lambda>ps xs. [xs ! 1 - ps ! 0 * xs ! 0]) [''x''] [2] 0
        \<lparr>integrated_states_0 = [], integrated_states_1 = [],
         collocated_states_0 = [1], collocated_states_1 = [3],
         constant_inputs_0 = [], constant_inputs_1 = [],
         collocation_time_0 = 0, collocation_time_1 = 1\<rparr> = Inr [[-4]]
   \<and> collocation_constraint 0 (\<lambda>ps xs. [xs ! 1 - ps ! 0 * xs ! 0]) [''x''] [2] 0
        \<lparr>integrated_states_0 = [], integrated_states_1 = [],
         collocated_states_0 = [1], collocated_states_1 = [3],
         constant_inputs_0 = [], constant_inputs_1 = [],
         collocation_time_0 = 0, collocation_time_1 = 1\<rparr> = Inr [[0]]
   \<and> collocation_constraint (1 / 2) (\<lambda>ps xs. [xs ! 1 - ps ! 0 * xs ! 0]) [''x''] [2] 0
        \<lparr>integrated_states_0 = [], integrated_states_1 = [],
         collocated_states_0 = [1], collocated_states_1 = [3],
         constant_inputs_0 = [], constant_inputs_1 = [],
         collocation_time_0 = 0, collocation_time_1 = 1\<rparr> = Inr [[-2]]"
  using collocation_constraint_theta [of "[''x'']" 1 "\<lambda>ps xs. [xs ! 1 - ps ! 0 * xs ! 0]" "[2]" 0
      "\<lparr>integrated_states_0 = [], integrated_states_1 = [],
         collocated_states_0 = [1], collocated_states_1 = [3],
         constant_inputs_0 = [], constant_inputs_1 = [],
         collocation_time_0 = 0, collocation_time_1 = 1\<rparr>"]
    collocation_constraint_theta [of "[''x'']" 0 "\<lambda>ps xs. [xs ! 1 - ps ! 0 * xs ! 0]" "[2]" 0
      "\<lparr>integrated_states_0 = [], integrated_states_1 = [],
         collocated_states_0 = [1], collocated_states_1 = [3],
         constant_inputs_0 = [], constant_inputs_1 = [],
         collocation_time_0 = 0, collocation_time_1 = 1\<rparr>"]
    collocation_constraint_theta [of "[''x'']" "1 / 2" "\<lambda>ps xs. [xs ! 1 - ps ! 0 * xs ! 0]" "[2]" 0
      "\<lparr>integrated_states_0 = [], integrated_states_1 = [],
         collocated_states_0 = [1], collocated_states_1 = [3],
         constant_inputs_0 = [], constant_inputs_1 = [],
         collocation_time_0 = 0, collocation_time_1 = 1\<rparr>"]
  by (simp add: start_point_def end_point_def collocated_finite_differences_def
      integrated_finite_differences_def finite_differences_def dt_def)

subsection \<open>Constant and ensemble parameters\<close>

text \<open>
  Claim C4, evaluated on the code. With two ensemble members, a parameter \<open>p\<close> that is
  not dynamic and has the values 1 and 2 is put among the constant parameters with the
  value 1, and one with the value 2 for both members is kept as an ensemble parameter.
\<close>

theorem split_parameters_misclassifies:
  "split_parameters [] [[1], [2]] [''p'']
     = Inr \<lparr>constant_parameters = [''p''], constant_parameter_values = [1],
            ensemble_parameters = [], ensemble_parameter_values = [[], []]\<rparr>
   \<and> split_parameters [] [[2], [2]] [''p'']
     = Inr \<lparr>constant_parameters = [], constant_parameter_values = [],
            ensemble_parameters = [''p''], ensemble_parameter_values = [[2], [2]]\<rparr>"
  by (simp add: split_parameters_def is_constant_parameter_def np_all_def bool_as_number_def)

subsection \<open>The objective of the assembled problem\<close>

lemma objective_loop_append:
  "objective_loop k ts f = f @ map (\<lambda>t. ensemble_member_probability t * f_member k t) ts"
  by (induction ts arbitrary: f) simp_all

text \<open>
  Claim C5. The objective of the assembled problem is the sum, over the ensemble
  members, of the member's probability times the member's own objective, which includes
  the path objective at the initial time and summed over the later collocation times.
\<close>

theorem nlp_objective_weighted_sum:
  "nlp_objective k members
     = (\<Sum>m < length members.
          ensemble_member_probability (members ! m) * f_member k (members ! m))
   \<and> f_member k t
     = (case objective t of None \<Rightarrow> 0 | Some v \<Rightarrow> v)
       + (if k > 0 then initial_path_objective t + sum_list (discretized_path_objective t)
          else 0)"
proof -
  have "nlp_objective k members
      = sum_list (map (\<lambda>t. ensemble_member_probability t * f_member k t) members)"
    by (simp add: nlp_objective_def objective_loop_append)
  also have "\<dots> = (\<Sum>m < length members.
          ensemble_member_probability (members ! m) * f_member k (members ! m))"
    by (simp add: sum_list_sum_nth atLeast0LessThan)
  finally show ?thesis by (simp add: f_member_def)
qed

subsection \<open>Vector symbols are rejected before the layout\<close>






subsection \<open>The layout of the decision vector\<close>

lemma index_states_inv:
  assumes "index_states p vs off ind = Inr (off', ind')" "distinct vs" "set vs \<inter> dom ind = {}"
  shows "off' = off + sum_list (map (state_slots p) vs)
    \<and> dom ind' = dom ind \<union> set vs
    \<and> (\<forall>k. k \<notin> set vs \<longrightarrow> ind' k = ind k)
    \<and> (\<Union>v\<in>set vs. positions (the (ind' v))) = {off ..< off'}
    \<and> (\<forall>v\<in>set vs. \<forall>w\<in>set vs. v \<noteq> w \<longrightarrow>
          positions (the (ind' v)) \<inter> positions (the (ind' w)) = {})"
  using assms
proof (induction vs arbitrary: off ind)
  case Nil
  then show ?case by simp
next
  case (Cons v vs)
  define n where "n = state_slots p v"
  define ix where "ix = (if v \<in> set (integrated_states p) then Offset off
     else Slice off (off + length (times_of p v) * variable_size p v))"
  have step: "index_states p vs (off + n) (ind(v \<mapsto> ix)) = Inr (off', ind')"
    using Cons.prems(1)
    by (auto simp: n_def ix_def state_slots_def Let_def mult.commute split: if_splits)
  have pos: "positions ix = {off ..< off + n}"
    by (auto simp: n_def ix_def state_slots_def mult.commute)
  have d: "distinct vs" "set vs \<inter> dom (ind(v \<mapsto> ix)) = {}" "v \<notin> set vs"
    using Cons.prems(2,3) by auto
  from Cons.IH [OF step d(1,2)] have
    o: "off' = off + n + sum_list (map (state_slots p) vs)" and
    dm: "dom ind' = dom (ind(v \<mapsto> ix)) \<union> set vs" and
    keep: "\<forall>k. k \<notin> set vs \<longrightarrow> ind' k = (ind(v \<mapsto> ix)) k" and
    cover: "(\<Union>w\<in>set vs. positions (the (ind' w))) = {off + n ..< off'}" and
    disj: "\<forall>a\<in>set vs. \<forall>b\<in>set vs. a \<noteq> b \<longrightarrow>
          positions (the (ind' a)) \<inter> positions (the (ind' b)) = {}"
    by auto
  have v: "ind' v = Some ix" using keep d(3) by simp
  have inside: "\<And>w. w \<in> set vs \<Longrightarrow> positions (the (ind' w)) \<subseteq> {off + n ..< off'}"
    using cover by blast
  have le: "off + n \<le> off'" using o by simp
  have c1: "off' = off + sum_list (map (state_slots p) (v # vs))" using o by (simp add: n_def)
  have c2: "dom ind' = dom ind \<union> set (v # vs)" using dm by auto
  have c3: "\<forall>k. k \<notin> set (v # vs) \<longrightarrow> ind' k = ind k" using keep by auto
  have c4: "(\<Union>w\<in>set (v # vs). positions (the (ind' w))) = {off ..< off'}"
    using cover v pos le by auto
  have c5: "\<forall>a\<in>set (v # vs). \<forall>b\<in>set (v # vs). a \<noteq> b \<longrightarrow>
          positions (the (ind' a)) \<inter> positions (the (ind' b)) = {}"
  proof (intro ballI impI)
    fix a b assume ab: "a \<in> set (v # vs)" "b \<in> set (v # vs)" "a \<noteq> b"
    consider "a = v" "b \<in> set vs" | "b = v" "a \<in> set vs" | "a \<in> set vs" "b \<in> set vs"
      using ab by auto
    then show "positions (the (ind' a)) \<inter> positions (the (ind' b)) = {}"
    proof cases
      case 1
      with inside [of b] v pos show ?thesis by auto
    next
      case 2
      with inside [of a] v pos show ?thesis by auto
    next
      case 3
      with disj ab(3) show ?thesis by blast
    qed
  qed
  show ?case using c1 c2 c3 c4 c5 by blast
qed

lemma index_extra_variables_inv:
  assumes "index_extra_variables p vs off ind = (off', ind')" "distinct vs" "set vs \<inter> dom ind = {}"
  shows "off' = off + sum_list (map (variable_size p) vs)
    \<and> dom ind' = dom ind \<union> set vs
    \<and> (\<forall>k. k \<notin> set vs \<longrightarrow> ind' k = ind k)
    \<and> (\<Union>v\<in>set vs. positions (the (ind' v))) = {off ..< off'}
    \<and> (\<forall>v\<in>set vs. \<forall>w\<in>set vs. v \<noteq> w \<longrightarrow>
          positions (the (ind' v)) \<inter> positions (the (ind' w)) = {})"
  using assms
proof (induction vs arbitrary: off ind)
  case Nil
  then show ?case by simp
next
  case (Cons v vs)
  define n where "n = variable_size p v"
  define ix where "ix = Slice off (off + n)"
  have step: "index_extra_variables p vs (off + n) (ind(v \<mapsto> ix)) = (off', ind')"
    using Cons.prems(1) by (simp add: n_def ix_def)
  have pos: "positions ix = {off ..< off + n}" by (simp add: ix_def)
  have d: "distinct vs" "set vs \<inter> dom (ind(v \<mapsto> ix)) = {}" "v \<notin> set vs"
    using Cons.prems(2,3) by auto
  from Cons.IH [OF step d(1,2)] have
    o: "off' = off + n + sum_list (map (variable_size p) vs)" and
    dm: "dom ind' = dom (ind(v \<mapsto> ix)) \<union> set vs" and
    keep: "\<forall>k. k \<notin> set vs \<longrightarrow> ind' k = (ind(v \<mapsto> ix)) k" and
    cover: "(\<Union>w\<in>set vs. positions (the (ind' w))) = {off + n ..< off'}" and
    disj: "\<forall>a\<in>set vs. \<forall>b\<in>set vs. a \<noteq> b \<longrightarrow>
          positions (the (ind' a)) \<inter> positions (the (ind' b)) = {}"
    by auto
  have v: "ind' v = Some ix" using keep d(3) by simp
  have inside: "\<And>w. w \<in> set vs \<Longrightarrow> positions (the (ind' w)) \<subseteq> {off + n ..< off'}"
    using cover by blast
  have le: "off + n \<le> off'" using o by simp
  have c1: "off' = off + sum_list (map (variable_size p) (v # vs))" using o by (simp add: n_def)
  have c2: "dom ind' = dom ind \<union> set (v # vs)" using dm by auto
  have c3: "\<forall>k. k \<notin> set (v # vs) \<longrightarrow> ind' k = ind k" using keep by auto
  have c4: "(\<Union>w\<in>set (v # vs). positions (the (ind' w))) = {off ..< off'}"
    using cover v pos le by auto
  have c5: "\<forall>a\<in>set (v # vs). \<forall>b\<in>set (v # vs). a \<noteq> b \<longrightarrow>
          positions (the (ind' a)) \<inter> positions (the (ind' b)) = {}"
  proof (intro ballI impI)
    fix a b assume ab: "a \<in> set (v # vs)" "b \<in> set (v # vs)" "a \<noteq> b"
    consider "a = v" "b \<in> set vs" | "b = v" "a \<in> set vs" | "a \<in> set vs" "b \<in> set vs"
      using ab by auto
    then show "positions (the (ind' a)) \<inter> positions (the (ind' b)) = {}"
    proof cases
      case 1
      with inside [of b] v pos show ?thesis by auto
    next
      case 2
      with inside [of a] v pos show ?thesis by auto
    next
      case 3
      with disj ab(3) show ?thesis by blast
    qed
  qed
  show ?case using c1 c2 c3 c4 c5 by blast
qed

lemma index_member_tiles:
  assumes "index_member p m = Inr ind"
    and "distinct (state_names p @ extra_variable_names p)"
  shows "dom ind = set (state_names p) \<union> set (extra_variable_names p)
    \<and> (\<Union>v\<in>dom ind. positions (the (ind v)))
        = {m * ensemble_member_size p ..< (m + 1) * ensemble_member_size p - length (derivatives p)}
    \<and> (\<forall>v\<in>dom ind. \<forall>w\<in>dom ind. v \<noteq> w \<longrightarrow>
          positions (the (ind v)) \<inter> positions (the (ind w)) = {})"
proof -
  let ?a = "m * ensemble_member_size p"
  from assms(1) obtain off1 ind1 where
    s: "index_states p (state_names p) ?a Map.empty = Inr (off1, ind1)" and
    i: "ind = snd (index_extra_variables p (extra_variable_names p) off1 ind1)"
    by (auto simp: index_member_def split: sum.splits)
  obtain off2 where e2: "index_extra_variables p (extra_variable_names p) off1 ind1 = (off2, ind)"
    using i by (cases "index_extra_variables p (extra_variable_names p) off1 ind1") auto
  have d1: "distinct (state_names p)" and d2: "distinct (extra_variable_names p)"
    and d3: "set (state_names p) \<inter> set (extra_variable_names p) = {}"
    using assms(2) by auto
  from index_states_inv [OF s d1] have
    o1: "off1 = ?a + sum_list (map (state_slots p) (state_names p))" and
    dm1: "dom ind1 = set (state_names p)" and
    cov1: "(\<Union>v\<in>set (state_names p). positions (the (ind1 v))) = {?a ..< off1}" and
    dis1: "\<forall>v\<in>set (state_names p). \<forall>w\<in>set (state_names p). v \<noteq> w \<longrightarrow>
          positions (the (ind1 v)) \<inter> positions (the (ind1 w)) = {}"
    by auto
  have d4: "set (extra_variable_names p) \<inter> dom ind1 = {}" using dm1 d3 by auto
  from index_extra_variables_inv [OF e2 d2 d4] have
    o2: "off2 = off1 + sum_list (map (variable_size p) (extra_variable_names p))" and
    dm2: "dom ind = dom ind1 \<union> set (extra_variable_names p)" and
    keep: "\<forall>k. k \<notin> set (extra_variable_names p) \<longrightarrow> ind k = ind1 k" and
    cov2: "(\<Union>v\<in>set (extra_variable_names p). positions (the (ind v))) = {off1 ..< off2}" and
    dis2: "\<forall>v\<in>set (extra_variable_names p). \<forall>w\<in>set (extra_variable_names p). v \<noteq> w \<longrightarrow>
          positions (the (ind v)) \<inter> positions (the (ind w)) = {}"
    by auto
  have same: "\<And>v. v \<in> set (state_names p) \<Longrightarrow> ind v = ind1 v"
    using keep d3 by auto
  have cov1': "(\<Union>v\<in>set (state_names p). positions (the (ind v))) = {?a ..< off1}"
    using cov1 same by simp
  have le: "?a \<le> off1" "off1 \<le> off2" using o1 o2 by simp_all
  have end2: "off2 = (m + 1) * ensemble_member_size p - length (derivatives p)"
    using o1 o2 by (simp add: ensemble_member_size_def)
  have c1: "dom ind = set (state_names p) \<union> set (extra_variable_names p)"
    using dm1 dm2 by simp
  have "(\<Union>v\<in>dom ind. positions (the (ind v)))
      = (\<Union>v\<in>set (state_names p). positions (the (ind v)))
        \<union> (\<Union>v\<in>set (extra_variable_names p). positions (the (ind v)))"
    unfolding c1 by blast
  also have "\<dots> = {?a ..< off2}" unfolding cov1' cov2 using le by auto
  finally have c2: "(\<Union>v\<in>dom ind. positions (the (ind v))) = {?a ..< off2}" .
  have in1: "\<And>v. v \<in> set (state_names p) \<Longrightarrow> positions (the (ind v)) \<subseteq> {?a ..< off1}"
    using cov1' by blast
  have in2: "\<And>v. v \<in> set (extra_variable_names p) \<Longrightarrow> positions (the (ind v)) \<subseteq> {off1 ..< off2}"
    using cov2 by blast
  have c3: "\<forall>v\<in>dom ind. \<forall>w\<in>dom ind. v \<noteq> w \<longrightarrow>
          positions (the (ind v)) \<inter> positions (the (ind w)) = {}"
  proof (intro ballI impI)
    fix v w assume vw: "v \<in> dom ind" "w \<in> dom ind" "v \<noteq> w"
    consider "v \<in> set (state_names p)" "w \<in> set (state_names p)"
      | "v \<in> set (state_names p)" "w \<in> set (extra_variable_names p)"
      | "v \<in> set (extra_variable_names p)" "w \<in> set (state_names p)"
      | "v \<in> set (extra_variable_names p)" "w \<in> set (extra_variable_names p)"
      using vw c1 by auto
    then show "positions (the (ind v)) \<inter> positions (the (ind w)) = {}"
    proof cases
      case 1
      with dis1 vw(3) same show ?thesis by simp
    next
      case 2
      have "{?a ..< off1} \<inter> {off1 ..< off2} = {}" by auto
      with 2 in1 [of v] in2 [of w] show ?thesis by blast
    next
      case 3
      have "{?a ..< off1} \<inter> {off1 ..< off2} = {}" by auto
      with 3 in1 [of w] in2 [of v] show ?thesis by blast
    next
      case 4
      with dis2 vw(3) show ?thesis by simp
    qed
  qed
  show ?thesis using c1 c2 c3 end2 by simp
qed

lemma index_members_nth:
  "index_members p ms = Inr inds \<Longrightarrow>
   length inds = length ms \<and> (\<forall>i < length ms. index_member p (ms ! i) = Inr (inds ! i))"
proof (induction ms arbitrary: inds)
  case Nil
  then show ?case by simp
next
  case (Cons m ms)
  then obtain i1 rest where a: "index_member p m = Inr i1" "index_members p ms = Inr rest"
    "inds = i1 # rest"
    by (auto split: sum.splits)
  from Cons.IH [OF a(2)] a show ?case by (auto simp: nth_Cons split: nat.splits)
qed

lemma dc_count_discretize_control:
  "dc_count (discretize_control I p b sd v off acc) = dc_count acc"
  by (simp add: discretize_control_def Let_def split: option.splits prod.splits)

lemma dc_count_loop:
  "dc_count (discretize_controls_loop I p b sd vs off acc) = dc_count acc"
  by (induction vs arbitrary: off acc) (simp_all add: dc_count_discretize_control)

lemma dc_count_discretize_controls:
  "dc_count (discretize_controls I p b sd) = control_count p"
  by (simp add: discretize_controls_def dc_count_loop)

text \<open>
  Claim C1, as the code has it. When the variable names are pairwise distinct, the slices
  that \<open>discretize_states\<close> records for an ensemble member are pairwise disjoint and
  cover, without a gap, the member's block except its last \<open>length (derivatives p)\<close>
  slots: those hold the initial derivatives and have no entry in the index map. The
  decision vector has the length of the control block plus the ensemble size times the
  length of a member's block.
\<close>

theorem layout_partition:
  assumes "transcribe_layout interpolate p bounds seed = Inr L"
    and "distinct (state_names p @ extra_variable_names p)"
  shows "\<exists>indices_state.
      discretize_states p = Inr (state_size L, indices_state)
    \<and> length indices_state = ensemble_size p
    \<and> control_size L = dc_count (discretize_controls interpolate p bounds seed)
    \<and> state_size L = ensemble_size p * ensemble_member_size p
    \<and> solver_input_size L = control_size L + ensemble_size p * ensemble_member_size p
    \<and> (\<forall>m < ensemble_size p.
          dom (indices_state ! m) = set (state_names p) \<union> set (extra_variable_names p)
        \<and> (\<Union>v\<in>dom (indices_state ! m). positions (the ((indices_state ! m) v)))
            = {m * ensemble_member_size p
                 ..< (m + 1) * ensemble_member_size p - length (derivatives p)}
        \<and> (\<forall>v\<in>dom (indices_state ! m). \<forall>w\<in>dom (indices_state ! m). v \<noteq> w \<longrightarrow>
              positions (the ((indices_state ! m) v))
                \<inter> positions (the ((indices_state ! m) w)) = {}))"
proof -
  from assms(1) obtain n inds where
    ds: "discretize_states p = Inr (n, inds)" and
    L: "L = \<lparr>control_size = dc_count (discretize_controls interpolate p bounds seed),
             state_size = n,
             indices = map (\<lambda>(c, s). merge_indices (dc_count (discretize_controls interpolate p bounds seed)) c s)
                         (zip (dc_indices (discretize_controls interpolate p bounds seed)) inds),
             solver_input_size = dc_count (discretize_controls interpolate p bounds seed) + n\<rparr>"
    by (auto simp: transcribe_layout_def Let_def split: option.splits sum.splits)
  from ds have im: "index_members p [0 ..< ensemble_size p] = Inr inds"
    and n: "n = ensemble_size p * ensemble_member_size p"
    by (auto simp: discretize_states_def split: sum.splits)
  from index_members_nth [OF im] have
    len: "length inds = ensemble_size p" and
    mem: "\<And>m. m < ensemble_size p \<Longrightarrow> index_member p m = Inr (inds ! m)"
    by auto
  have tiles: "\<forall>m < ensemble_size p.
          dom (inds ! m) = set (state_names p) \<union> set (extra_variable_names p)
        \<and> (\<Union>v\<in>dom (inds ! m). positions (the ((inds ! m) v)))
            = {m * ensemble_member_size p
                 ..< (m + 1) * ensemble_member_size p - length (derivatives p)}
        \<and> (\<forall>v\<in>dom (inds ! m). \<forall>w\<in>dom (inds ! m). v \<noteq> w \<longrightarrow>
              positions (the ((inds ! m) v)) \<inter> positions (the ((inds ! m) w)) = {})"
    using index_member_tiles [OF mem assms(2)] by blast
  have a1: "discretize_states p = Inr (state_size L, inds)" using ds by (simp add: L)
  have a2: "control_size L = dc_count (discretize_controls interpolate p bounds seed)"
    by (simp add: L)
  have a3: "state_size L = ensemble_size p * ensemble_member_size p" using n by (simp add: L)
  have a4: "solver_input_size L = control_size L + ensemble_size p * ensemble_member_size p"
    using n by (simp add: L)
  from a1 len a2 a3 a4 tiles show ?thesis by blast
qed

lemma ex_layout_sizes: "variable_sizes ex_layout = [''x'' \<mapsto> 1]"
  by (simp add: ex_layout_def variable_sizes_def)

lemma ex_layout_member_size: "ensemble_member_size ex_layout = 3"
  by (simp add: ensemble_member_size_def state_names_def path_variable_names_def
      extra_variable_names_def state_slots_def variable_size_def variable_sizes_def
      ex_layout_def)

lemma ex_layout_states:
  "discretize_states ex_layout
     = Inr (6, [[''x'' \<mapsto> Slice 0 2], [''x'' \<mapsto> Slice 3 5]])"
proof -
  have u: "[0 ..< 2] = [0, Suc 0]"
    by (simp add: upt_conv_Cons numeral_2_eq_2)
  have e: "ensemble_size ex_layout = 2" by (simp add: ex_layout_def)
  have m: "\<And>k. index_member ex_layout k = Inr [''x'' \<mapsto> Slice (k * 3) (k * 3 + 2)]"
    by (simp add: index_member_def ex_layout_member_size)
       (simp add: state_slots_def state_names_def path_variable_names_def
          extra_variable_names_def variable_size_def variable_sizes_def ex_layout_def)
  have m0: "index_member ex_layout 0 = Inr [''x'' \<mapsto> Slice 0 2]"
    and m1: "index_member ex_layout (Suc 0) = Inr [''x'' \<mapsto> Slice 3 5]"
    using m [of 0] m [of "Suc 0"] by (simp_all add: numeral_2_eq_2)
  show ?thesis
    by (simp add: discretize_states_def e u m0 m1 ex_layout_member_size)
qed

text \<open>
  Claim C1 as stated fails: in \<open>ex_layout\<close> the block of member 0 is \<open>{0 ..< 3}\<close>
  and its only slice, that of \<open>x\<close>, is \<open>{0 ..< 2}\<close>; slot 2 holds the initial
  derivative of \<open>x\<close>.
\<close>

theorem layout_gap_counterexample:
  "discretize_states ex_layout
     = Inr (6, [[''x'' \<mapsto> Slice 0 2], [''x'' \<mapsto> Slice 3 5]])
   \<and> ensemble_member_size ex_layout = 3
   \<and> positions (Slice 0 2) \<noteq> {0 * 3 ..< 1 * 3}"
proof -
  have "(2::nat) \<in> {0 * 3 ..< 1 * 3}" "(2::nat) \<notin> positions (Slice 0 2)" by simp_all
  then have "positions (Slice 0 2) \<noteq> {0 * 3 ..< 1 * 3}" by blast
  then show ?thesis using ex_layout_states ex_layout_member_size by simp
qed

lemma ex_layout_check: "check_vector_symbols ex_layout = None"
  by (simp add: check_vector_symbols_def variable_sizes_get_def variable_sizes_def
      ex_layout_def)

theorem layout_partition_witness:
  "distinct (state_names ex_layout @ extra_variable_names ex_layout)
   \<and> (\<exists>L. transcribe_layout (\<lambda>method t series f_left f_right. NaN) ex_layout Map.empty Map.empty = Inr L
        \<and> control_size L = 2 \<and> state_size L = 6 \<and> solver_input_size L = 8)
   \<and> discretize_states ex_layout
       = Inr (6, [[''x'' \<mapsto> Slice 0 2], [''x'' \<mapsto> Slice 3 5]])"
proof -
  let ?I = "\<lambda>(method::nat) (t::real) (series::timeseries) (f_left::fl) (f_right::fl). NaN"
  have d: "distinct (state_names ex_layout @ extra_variable_names ex_layout)"
    by (simp add: state_names_def path_variable_names_def extra_variable_names_def ex_layout_def)
  obtain L where L: "transcribe_layout ?I ex_layout Map.empty Map.empty = Inr L"
    by (simp add: transcribe_layout_def ex_layout_check ex_layout_states Let_def)
  have c: "dc_count (discretize_controls ?I ex_layout Map.empty Map.empty) = 2"
    by (simp add: dc_count_discretize_controls control_count_def) (simp add: ex_layout_def)
  have e: "ensemble_size ex_layout = 2" by (simp add: ex_layout_def)
  from layout_partition [OF L d] c e ex_layout_member_size
  have "control_size L = 2 \<and> state_size L = 6 \<and> solver_input_size L = 8" by auto
  with L d ex_layout_states show ?thesis by blast
qed

subsection \<open>Seeds and bounds of the controls\<close>

lemma ex_layout_controls:
  "controls ex_layout = [''u'']" "times_of ex_layout ''u'' = [0, 1]"
  "ensemble_size ex_layout = 2" "variable_nominal ex_layout ''u'' 0 = 1"
  "interpolation_method ex_layout ''u'' = 0"
  by (simp_all add: ex_layout_def)

text \<open>
  Claim C8, evaluated on the code. A seed is supplied for the control \<open>u\<close>. With no
  entry for \<open>u\<close> in the bounds, its slice of \<open>x0\<close> stays zero whatever the
  interpolation returns; with an entry, even one that sets no bound, the interpolated and
  descaled seed is written.
\<close>

theorem seed_skipped_without_bounds:
  "dc_x0 (discretize_controls interpolate ex_layout Map.empty ex_seed) = [Fin 0, Fin 0]
   \<and> dc_x0 (discretize_controls interpolate ex_layout [''u'' \<mapsto> (None, None)] ex_seed)
       = [fl_div (interpolate 0 0 \<lparr>ts_times = [0, 1], ts_values = [Fin 4, Fin 6]\<rparr> (Fin 0) (Fin 0)) 1,
          fl_div (interpolate 0 1 \<lparr>ts_times = [0, 1], ts_values = [Fin 4, Fin 6]\<rparr> (Fin 0) (Fin 0)) 1]"
  by (simp add: discretize_controls_def control_count_def ex_layout_controls
      discretize_control_def Let_def ex_seed_def assign_slice_def interpolate_descaled_def
      numeral_2_eq_2)

subsection \<open>Initial values from the history\<close>






subsection \<open>Delayed feedback\<close>









subsection \<open>Decoding a solved vector\<close>

lemma index_states_append:
  "index_states p (xs @ ys) off ind =
     (case index_states p xs off ind of
        Inl e \<Rightarrow> Inl e
      | Inr (off1, ind1) \<Rightarrow> index_states p ys off1 ind1)"
  by (induction xs arbitrary: off ind) (simp_all add: Let_def)

lemma index_states_keep:
  "index_states p vs off ind = Inr (off', ind') \<Longrightarrow> k \<notin> set vs \<Longrightarrow> ind' k = ind k"
proof (induction vs arbitrary: off ind)
  case Nil
  then show ?case by simp
next
  case (Cons v vs)
  from Cons.prems(2) have k: "k \<notin> set vs" "k \<noteq> v" by simp_all
  show ?case
  proof (cases "v \<in> set (integrated_states p)")
    case True
    with Cons.prems have "index_states p vs (off + 1) (ind(v \<mapsto> Offset off)) = Inr (off', ind')"
      by (simp split: if_splits)
    from Cons.IH [OF this k(1)] k(2) show ?thesis by simp
  next
    case False
    let ?n = "length (times_of p v) * variable_size p v"
    from Cons.prems False have
      "index_states p vs (off + ?n) (ind(v \<mapsto> Slice off (off + ?n))) = Inr (off', ind')"
      by (simp add: Let_def)
    from Cons.IH [OF this k(1)] k(2) show ?thesis by simp
  qed
qed

lemma index_states_offset:
  "index_states p vs off ind = Inr (off', ind') \<Longrightarrow>
   off' = off + sum_list (map (state_slots p) vs)"
proof (induction vs arbitrary: off ind)
  case Nil
  then show ?case by simp
next
  case (Cons v vs)
  show ?case
  proof (cases "v \<in> set (integrated_states p)")
    case True
    with Cons.prems have "index_states p vs (off + 1) (ind(v \<mapsto> Offset off)) = Inr (off', ind')"
      by (simp split: if_splits)
    from Cons.IH [OF this] True show ?thesis by (simp add: state_slots_def)
  next
    case False
    let ?n = "length (times_of p v) * variable_size p v"
    from Cons.prems False have
      "index_states p vs (off + ?n) (ind(v \<mapsto> Slice off (off + ?n))) = Inr (off', ind')"
      by (simp add: Let_def)
    from Cons.IH [OF this] False show ?thesis by (simp add: state_slots_def mult.commute)
  qed
qed

lemma index_extra_variables_keep:
  "index_extra_variables p vs off ind = (off', ind') \<Longrightarrow> k \<notin> set vs \<Longrightarrow> ind' k = ind k"
proof (induction vs arbitrary: off ind)
  case Nil
  then show ?case by simp
next
  case (Cons v vs)
  from Cons.prems have
    "index_extra_variables p vs (off + variable_size p v)
       (ind(v \<mapsto> Slice off (off + variable_size p v))) = (off', ind')" "k \<notin> set vs" "k \<noteq> v"
    by simp_all
  from Cons.IH [OF this(1,2)] this(3) show ?case by simp
qed

lemma index_extra_variables_offset:
  "index_extra_variables p vs off ind = (off', ind') \<Longrightarrow>
   off' = off + sum_list (map (variable_size p) vs)"
proof (induction vs arbitrary: off ind)
  case Nil
  then show ?case by simp
next
  case (Cons v vs)
  from Cons.prems have
    "index_extra_variables p vs (off + variable_size p v)
       (ind(v \<mapsto> Slice off (off + variable_size p v))) = (off', ind')"
    by simp
  from Cons.IH [OF this] show ?case by simp
qed

lemma length_slice: "stop \<le> length xs \<Longrightarrow> length (slice xs start stop) = stop - start"
  by (simp add: slice_def)

lemma slice_one: "i < length xs \<Longrightarrow> slice xs i (i + 1) = [xs ! i]"
  by (simp add: slice_def Cons_nth_drop_Suc [symmetric])

lemma collocated_reads_layout:
  assumes "index_states p vs off ind = Inr (off', ind')" "distinct vs"
    and "\<forall>v\<in>set vs. variable_size p v = 1"
  shows "\<exists>res'. extract_collocated p X vs (c + off) res = (c + off', res')
     \<and> (\<forall>v\<in>set vs. v \<notin> set (integrated_states p) \<longrightarrow>
           (\<exists>a b. ind' v = Some (Slice a b)
              \<and> res' v = Some (Flat (scaled p v (slice X (c + a) (c + b))))))
     \<and> (\<forall>k. k \<notin> set vs \<longrightarrow> res' k = res k)"
  using assms
proof (induction vs arbitrary: off ind res)
  case Nil
  then show ?case by simp
next
  case (Cons v vs)
  have sz: "variable_size p v = 1" and d: "distinct vs" "v \<notin> set vs"
    and szs: "\<forall>w\<in>set vs. variable_size p w = 1"
    using Cons.prems by simp_all
  show ?case
  proof (cases "v \<in> set (integrated_states p)")
    case True
    with Cons.prems(1) sz have
      step: "index_states p vs (off + 1) (ind(v \<mapsto> Offset off)) = Inr (off', ind')"
      by simp
    from Cons.IH [OF step d(1) szs, of res] obtain res' where
      r: "extract_collocated p X vs (c + (off + 1)) res = (c + off', res')" and
      a: "\<forall>w\<in>set vs. w \<notin> set (integrated_states p) \<longrightarrow>
           (\<exists>a b. ind' w = Some (Slice a b)
              \<and> res' w = Some (Flat (scaled p w (slice X (c + a) (c + b)))))" and
      f: "\<forall>k. k \<notin> set vs \<longrightarrow> res' k = res k"
      by blast
    have "extract_collocated p X (v # vs) (c + off) res = (c + off', res')"
      using True r by (simp add: add.assoc)
    with a f True show ?thesis by auto
  next
    case False
    let ?n = "length (times_of p v)"
    let ?r = "res(v \<mapsto> Flat (scaled p v (slice X (c + off) (c + off + ?n))))"
    from Cons.prems(1) sz False have
      step: "index_states p vs (off + ?n) (ind(v \<mapsto> Slice off (off + ?n))) = Inr (off', ind')"
      by (simp add: Let_def)
    from Cons.IH [OF step d(1) szs, of ?r] obtain res' where
      r: "extract_collocated p X vs (c + (off + ?n)) ?r = (c + off', res')" and
      a: "\<forall>w\<in>set vs. w \<notin> set (integrated_states p) \<longrightarrow>
           (\<exists>a b. ind' w = Some (Slice a b)
              \<and> res' w = Some (Flat (scaled p w (slice X (c + a) (c + b)))))" and
      f: "\<forall>k. k \<notin> set vs \<longrightarrow> res' k = ?r k"
      by blast
    have e: "extract_collocated p X (v # vs) (c + off) res = (c + off', res')"
      using False r by (simp add: Let_def add.assoc)
    have iv: "ind' v = Some (Slice off (off + ?n))"
      using index_states_keep [OF step d(2)] by simp
    have rv: "res' v = Some (Flat (scaled p v (slice X (c + off) (c + (off + ?n)))))"
      using f d(2) by (simp add: add.assoc)
    have fr: "\<forall>k. k \<notin> set (v # vs) \<longrightarrow> res' k = res k" using f by auto
    from e a iv rv fr show ?thesis by auto
  qed
qed

lemma path_variables_read_layout:
  assumes "index_states p vs off ind = Inr (off', ind')" "distinct vs"
    and "\<forall>v\<in>set vs. v \<notin> set (integrated_states p)
           \<and> length (times_of p v) = length (collocation_times p)
           \<and> 1 \<le> variable_size p v"
    and "c + off' \<le> length X"
  shows "\<exists>res'. extract_path_variables p X vs (c + off) res = Inr (c + off', res')
     \<and> (\<forall>v\<in>set vs. \<exists>a b. ind' v = Some (Slice a b)
           \<and> res' v = Some (if variable_size p v > 1
                then Rows (path_rows p v (variable_size p v) (length (collocation_times p))
                             (slice X (c + a) (c + b)))
                else Flat (scaled p v (slice X (c + a) (c + b)))))
     \<and> (\<forall>k. k \<notin> set vs \<longrightarrow> res' k = res k)"
  using assms
proof (induction vs arbitrary: off ind res)
  case Nil
  then show ?case by simp
next
  case (Cons v vs)
  let ?n = "length (collocation_times p)"
  let ?w = "variable_size p v"
  let ?val = "if ?w > 1
                then Rows (path_rows p v ?w ?n (slice X (c + off) (c + (off + ?n * ?w))))
                else Flat (scaled p v (slice X (c + off) (c + (off + ?n * ?w))))"
  let ?r = "res(v \<mapsto> ?val)"
  have v: "v \<notin> set (integrated_states p)" "length (times_of p v) = ?n" "1 \<le> ?w"
    and d: "distinct vs" "v \<notin> set vs"
    and rest: "\<forall>w\<in>set vs. w \<notin> set (integrated_states p)
           \<and> length (times_of p w) = length (collocation_times p)
           \<and> 1 \<le> variable_size p w"
    using Cons.prems by simp_all
  from Cons.prems(1) v have
    step: "index_states p vs (off + ?n * ?w) (ind(v \<mapsto> Slice off (off + ?n * ?w))) = Inr (off', ind')"
    by (simp add: Let_def)
  from index_states_offset [OF step] have le: "off + ?n * ?w \<le> off'" by simp
  with Cons.prems(4) have inr: "c + (off + ?n * ?w) \<le> length X" by simp
  from Cons.IH [OF step d(1) rest Cons.prems(4), of ?r] obtain res' where
    r: "extract_path_variables p X vs (c + (off + ?n * ?w)) ?r = Inr (c + off', res')" and
    a: "\<forall>w\<in>set vs. \<exists>a b. ind' w = Some (Slice a b)
           \<and> res' w = Some (if variable_size p w > 1
                then Rows (path_rows p w (variable_size p w) ?n (slice X (c + a) (c + b)))
                else Flat (scaled p w (slice X (c + a) (c + b))))" and
    f: "\<forall>k. k \<notin> set vs \<longrightarrow> res' k = ?r k"
    by blast
  have len: "length (slice X (c + off) (c + off + ?n * ?w)) = ?n * ?w"
    using inr by (simp add: length_slice add.assoc)
  have one: "\<not> ?w > 1 \<Longrightarrow> ?n * ?w = ?n" using v(3) by simp
  have e: "extract_path_variables p X (v # vs) (c + off) res = Inr (c + off', res')"
  proof (cases "?w > 1")
    case True
    then show ?thesis using r len by (simp add: Let_def add.assoc)
  next
    case False
    with v(3) have w1: "?w = 1" by simp
    show ?thesis using r by (simp add: Let_def add.assoc w1)
  qed
  have iv: "ind' v = Some (Slice off (off + ?n * ?w))"
    using index_states_keep [OF step d(2)] by simp
  have rv: "res' v = Some ?val" using f d(2) by simp
  have fr: "\<forall>k. k \<notin> set (v # vs) \<longrightarrow> res' k = res k" using f by auto
  from e a iv rv fr show ?case by auto
qed

lemma extra_variables_read_layout:
  assumes "index_extra_variables p vs off ind = (off', ind')" "distinct vs"
    and "\<forall>v\<in>set vs. 1 \<le> variable_size p v"
    and "c + off' \<le> length X"
  shows "\<exists>res'. extract_extra_variables p X vs (c + off) res = Inr (c + off', res')
     \<and> (\<forall>v\<in>set vs. \<exists>a b. ind' v = Some (Slice a b)
           \<and> res' v = Some (if variable_size p v > 1
                then Rows [scaled_components p v (slice X (c + a) (c + b))]
                else Flat (scaled p v (slice X (c + a) (c + b)))))
     \<and> (\<forall>k. k \<notin> set vs \<longrightarrow> res' k = res k)"
  using assms
proof (induction vs arbitrary: off ind res)
  case Nil
  then show ?case by simp
next
  case (Cons v vs)
  let ?w = "variable_size p v"
  let ?val = "if ?w > 1
                then Rows [scaled_components p v (slice X (c + off) (c + (off + ?w)))]
                else Flat (scaled p v (slice X (c + off) (c + (off + ?w))))"
  let ?r = "res(v \<mapsto> ?val)"
  have v: "1 \<le> ?w" and d: "distinct vs" "v \<notin> set vs"
    and rest: "\<forall>w\<in>set vs. 1 \<le> variable_size p w"
    using Cons.prems by simp_all
  from Cons.prems(1) have
    step: "index_extra_variables p vs (off + ?w) (ind(v \<mapsto> Slice off (off + ?w))) = (off', ind')"
    by simp
  from index_extra_variables_offset [OF step] have le: "off + ?w \<le> off'" by simp
  with Cons.prems(4) v have inr: "c + off < length X" by simp
  from Cons.IH [OF step d(1) rest Cons.prems(4), of ?r] obtain res' where
    r: "extract_extra_variables p X vs (c + (off + ?w)) ?r = Inr (c + off', res')" and
    a: "\<forall>w\<in>set vs. \<exists>a b. ind' w = Some (Slice a b)
           \<and> res' w = Some (if variable_size p w > 1
                then Rows [scaled_components p w (slice X (c + a) (c + b))]
                else Flat (scaled p w (slice X (c + a) (c + b))))" and
    f: "\<forall>k. k \<notin> set vs \<longrightarrow> res' k = ?r k"
    by blast
  have one: "\<not> ?w > 1 \<Longrightarrow> ?w = 1" using v by simp
  have e: "extract_extra_variables p X (v # vs) (c + off) res = Inr (c + off', res')"
  proof (cases "?w > 1")
    case True
    then show ?thesis using r by (simp add: Let_def add.assoc)
  next
    case False
    with one have w1: "?w = 1" by simp
    have "slice X (c + off) (c + (off + 1)) = [X ! (c + off)]"
      using slice_one [OF inr] by (simp add: add.assoc)
    then show ?thesis using r inr w1 by (simp add: Let_def)
  qed
  have iv: "ind' v = Some (Slice off (off + ?w))"
    using index_extra_variables_keep [OF step d(2)] by simp
  have rv: "res' v = Some ?val" using f d(2) by simp
  have fr: "\<forall>k. k \<notin> set (v # vs) \<longrightarrow> res' k = res k" using f by auto
  from e a iv rv fr show ?case by auto
qed

lemma extract_constant_inputs_keep:
  "k \<notin> set (map fst inputs) \<Longrightarrow> extract_constant_inputs inputs res k = res k"
  by (induction inputs arbitrary: res) auto

lemma extract_integrated_ok:
  "\<forall>v\<in>set vs. ex_integrators e v \<noteq> None \<Longrightarrow>
   \<exists>res'. extract_integrated p e vs j res = Inr res'
     \<and> (\<forall>k. k \<notin> set vs \<longrightarrow> res' k = res k)"
proof (induction vs arbitrary: j res)
  case Nil
  then show ?case by simp
next
  case (Cons v vs)
  then obtain n where n: "ex_integrators e v = Some n" by auto
  let ?r = "res(v \<mapsto> Flat (scaled p v (slice (ex_integrators_output e) j (j + n))))"
  from Cons.prems have "\<forall>w\<in>set vs. ex_integrators e w \<noteq> None" by simp
  from Cons.IH [OF this, of "j + n" ?r] obtain res' where
    "extract_integrated p e vs (j + n) ?r = Inr res'" "\<forall>k. k \<notin> set vs \<longrightarrow> res' k = ?r k"
    by blast
  with n show ?case by auto
qed

lemma extract_initial_derivatives_ok:
  "\<forall>(k, s, d)\<in>set kds. offset + k < length X \<Longrightarrow>
   \<exists>res'. extract_initial_derivatives p e X offset kds res = Inr res'
     \<and> (\<forall>key. key \<notin> (\<lambda>(k, s, d). ''initial_'' @ d) ` set kds \<longrightarrow> res' key = res key)"
proof (induction kds arbitrary: res)
  case Nil
  then show ?case by simp
next
  case (Cons a kds)
  obtain k s d where a: "a = (k, s, d)" by (cases a)
  from Cons.prems a have inr: "offset + k < length X"
    and rest: "\<forall>(k, s, d)\<in>set kds. offset + k < length X" by auto
  show ?case
  proof (cases "ex_initial_dt e s")
    case None
    with Cons.IH [OF rest, of res] a show ?thesis by auto
  next
    case (Some step)
    let ?r = "res(''initial_'' @ d \<mapsto> Flat [variable_nominal p s 0 / step * X ! (offset + k)])"
    from Cons.IH [OF rest, of ?r] obtain res' where
      "extract_initial_derivatives p e X offset kds ?r = Inr res'"
      "\<forall>key. key \<notin> (\<lambda>(k, s, d). ''initial_'' @ d) ` set kds \<longrightarrow> res' key = ?r key"
      by blast
    with Some a inr show ?thesis by auto
  qed
qed

lemma dc_indices_discretize_control:
  "dc_indices (discretize_control I p b sd v off acc)
     = map (\<lambda>i. i(v \<mapsto> Slice off (off + length (times_of p v)))) (dc_indices acc)"
  by (simp add: discretize_control_def Let_def split: option.splits prod.splits)

lemma controls_read_layout:
  assumes "distinct vs"
  shows "length (dc_indices (discretize_controls_loop I p bnd sd vs off acc)) = length (dc_indices acc)
     \<and> (\<forall>m < length (dc_indices acc).
          (\<forall>v\<in>set vs. \<exists>a b.
              (dc_indices (discretize_controls_loop I p bnd sd vs off acc) ! m) v = Some (Slice a b)
            \<and> extract_controls_loop p X vs off res v = Some (Flat (scaled p v (slice X a b))))
        \<and> (\<forall>k. k \<notin> set vs \<longrightarrow>
              (dc_indices (discretize_controls_loop I p bnd sd vs off acc) ! m) k
                = (dc_indices acc ! m) k))
     \<and> (\<forall>k. k \<notin> set vs \<longrightarrow> extract_controls_loop p X vs off res k = res k)"
  using assms
proof (induction vs arbitrary: off acc res)
  case Nil
  then show ?case by simp
next
  case (Cons v vs)
  let ?n = "length (times_of p v)"
  let ?acc = "discretize_control I p bnd sd v off acc"
  let ?r = "res(v \<mapsto> Flat (scaled p v (slice X off (off + ?n))))"
  let ?out = "discretize_controls_loop I p bnd sd vs (off + ?n) ?acc"
  let ?ex = "extract_controls_loop p X vs (off + ?n) ?r"
  have d: "distinct vs" "v \<notin> set vs" using Cons.prems by simp_all
  have la: "length (dc_indices ?acc) = length (dc_indices acc)"
    by (simp add: dc_indices_discretize_control)
  from Cons.IH [OF d(1), of "off + ?n" ?acc ?r] have
    l: "length (dc_indices ?out) = length (dc_indices ?acc)" and
    a: "\<forall>m < length (dc_indices ?acc).
          (\<forall>w\<in>set vs. \<exists>a b. (dc_indices ?out ! m) w = Some (Slice a b)
            \<and> ?ex w = Some (Flat (scaled p w (slice X a b))))
        \<and> (\<forall>k. k \<notin> set vs \<longrightarrow> (dc_indices ?out ! m) k = (dc_indices ?acc ! m) k)" and
    f: "\<forall>k. k \<notin> set vs \<longrightarrow> ?ex k = ?r k"
    by blast+
  have eq1: "discretize_controls_loop I p bnd sd (v # vs) off acc = ?out" by simp
  have eq2: "extract_controls_loop p X (v # vs) off res = ?ex" by (simp add: Let_def)
  have c1: "length (dc_indices ?out) = length (dc_indices acc)" using l la by simp
  have c2: "\<forall>m < length (dc_indices acc).
          (\<forall>w\<in>set (v # vs). \<exists>a b. (dc_indices ?out ! m) w = Some (Slice a b)
            \<and> ?ex w = Some (Flat (scaled p w (slice X a b))))
        \<and> (\<forall>k. k \<notin> set (v # vs) \<longrightarrow> (dc_indices ?out ! m) k = (dc_indices acc ! m) k)"
  proof (intro allI impI)
    fix m assume m: "m < length (dc_indices acc)"
    then have m': "m < length (dc_indices ?acc)" using la by simp
    have am: "dc_indices ?acc ! m = (dc_indices acc ! m)(v \<mapsto> Slice off (off + ?n))"
      using m by (simp add: dc_indices_discretize_control)
    from a m' have
      a1: "\<forall>w\<in>set vs. \<exists>a b. (dc_indices ?out ! m) w = Some (Slice a b)
            \<and> ?ex w = Some (Flat (scaled p w (slice X a b)))" and
      a2: "\<forall>k. k \<notin> set vs \<longrightarrow> (dc_indices ?out ! m) k = (dc_indices ?acc ! m) k"
      by blast+
    have iv: "(dc_indices ?out ! m) v = Some (Slice off (off + ?n))"
      using a2 d(2) am by simp
    have rv: "?ex v = Some (Flat (scaled p v (slice X off (off + ?n))))"
      using f d(2) by simp
    have k: "\<forall>k. k \<notin> set (v # vs) \<longrightarrow> (dc_indices ?out ! m) k = (dc_indices acc ! m) k"
      using a2 am by auto
    from a1 iv rv k
    show "(\<forall>w\<in>set (v # vs). \<exists>a b. (dc_indices ?out ! m) w = Some (Slice a b)
            \<and> ?ex w = Some (Flat (scaled p w (slice X a b))))
        \<and> (\<forall>k. k \<notin> set (v # vs) \<longrightarrow> (dc_indices ?out ! m) k = (dc_indices acc ! m) k)"
      by auto
  qed
  have c3: "\<forall>k. k \<notin> set (v # vs) \<longrightarrow> ?ex k = res k" using f by auto
  show ?case unfolding eq1 eq2 using c1 c2 c3 by blast
qed

lemma fold_update_map_of:
  "fold (\<lambda>(k, n) m. m(k \<mapsto> n)) xs m0 = m0 ++ map_of (rev xs)"
proof (induction xs arbitrary: m0)
  case Nil
  then show ?case by simp
next
  case (Cons x xs)
  obtain k n where x: "x = (k, n)" by (cases x)
  have "fold (\<lambda>(k, n) m. m(k \<mapsto> n)) (x # xs) m0
      = fold (\<lambda>(k, n) m. m(k \<mapsto> n)) xs (m0(k \<mapsto> n))"
    by (simp add: x)
  also have "\<dots> = m0(k \<mapsto> n) ++ map_of (rev xs)" by (rule Cons.IH)
  also have "\<dots> = m0 ++ map_of (rev (x # xs))"
    unfolding x by (rule ext) (simp add: map_add_def split: option.splits)
  finally show ?case .
qed

lemma variable_sizes_defined:
  assumes "v \<in> set (state_names p @ extra_variable_names p)"
  shows "variable_sizes p v \<noteq> None"
proof -
  let ?xs = "map (\<lambda>variable. (variable, 1::nat)) (differentiated_states p @ algebraic_states p)
                 @ path_variables p @ extra_variables p"
  have "map fst ?xs = state_names p @ extra_variable_names p"
    by (simp add: state_names_def path_variable_names_def extra_variable_names_def comp_def)
  with assms have "v \<in> fst ` set (rev ?xs)" by (simp only: set_rev set_map [symmetric])
  then have "map_of (rev ?xs) v \<noteq> None" by (simp only: map_of_eq_None_iff not_not)
  then show ?thesis by (simp add: variable_sizes_def fold_update_map_of)
qed

lemma variable_size_entry:
  assumes "distinct (state_names p @ extra_variable_names p)"
    and "(v, n) \<in> set (map (\<lambda>variable. (variable, 1)) (differentiated_states p @ algebraic_states p)
                 @ path_variables p @ extra_variables p)"
  shows "variable_size p v = n"
proof -
  let ?xs = "map (\<lambda>variable. (variable, 1::nat)) (differentiated_states p @ algebraic_states p)
                 @ path_variables p @ extra_variables p"
  have fst: "map fst ?xs = state_names p @ extra_variable_names p"
    by (simp add: state_names_def path_variable_names_def extra_variable_names_def comp_def)
  have "distinct (map fst ?xs)" using assms(1) unfolding fst .
  then have d: "distinct (map fst (rev ?xs))"
    unfolding rev_map [symmetric] distinct_rev .
  have "variable_sizes p = map_of (rev ?xs)"
    by (simp add: variable_sizes_def fold_update_map_of)
  moreover have "(v, n) \<in> set (rev ?xs)" using assms(2) by (simp only: set_rev)
  from map_of_is_SomeI [OF d this] have "map_of (rev ?xs) v = Some n" .
  ultimately show ?thesis by (simp add: variable_size_def)
qed

lemma variable_size_state:
  assumes "distinct (state_names p @ extra_variable_names p)"
    and "v \<in> set (differentiated_states p @ algebraic_states p)"
  shows "variable_size p v = 1"
  using variable_size_entry [OF assms(1), of v 1] assms(2) by auto

lemma variable_size_positive:
  assumes "distinct (state_names p @ extra_variable_names p)"
    and "\<forall>(v, n)\<in>set (path_variables p @ extra_variables p). 1 \<le> n"
    and "v \<in> set (path_variable_names p) \<union> set (extra_variable_names p)"
  shows "1 \<le> variable_size p v"
proof -
  from assms(3) have "v \<in> fst ` set (path_variables p @ extra_variables p)"
    by (auto simp: path_variable_names_def extra_variable_names_def)
  then obtain n where n: "(v, n) \<in> set (path_variables p @ extra_variables p)"
    by force
  then have "variable_size p v = n"
    using variable_size_entry [OF assms(1), of v n] by auto
  with assms(2) n show ?thesis by auto
qed

lemma member_extraction:
  assumes im: "index_member p m = Inr ind"
    and ok: "extractable p e"
    and cs: "ex_control_size e = c"
    and ss: "ex_state_size e = ensemble_size p * ensemble_member_size p"
    and m: "m < ensemble_size p"
    and len: "c + (m + 1) * ensemble_member_size p \<le> length X"
  shows "\<exists>res. extract_states p e X m = Inr res
    \<and> (\<forall>v\<in>set (differentiated_states p @ algebraic_states p).
          v \<notin> set (integrated_states p) \<longrightarrow>
          (\<exists>a b. ind v = Some (Slice a b)
             \<and> res v = Some (Flat (scaled p v (slice X (c + a) (c + b))))))
    \<and> (\<forall>v\<in>set (path_variable_names p). \<exists>a b. ind v = Some (Slice a b)
          \<and> res v = Some (if variable_size p v > 1
               then Rows (path_rows p v (variable_size p v) (length (collocation_times p))
                            (slice X (c + a) (c + b)))
               else Flat (scaled p v (slice X (c + a) (c + b)))))
    \<and> (\<forall>v\<in>set (extra_variable_names p). \<exists>a b. ind v = Some (Slice a b)
          \<and> res v = Some (if variable_size p v > 1
               then Rows [scaled_components p v (slice X (c + a) (c + b))]
               else Flat (scaled p v (slice X (c + a) (c + b)))))"
proof -
  let ?S = "ensemble_member_size p"
  let ?S1 = "differentiated_states p @ algebraic_states p"
  let ?P = "path_variable_names p"
  let ?E = "extra_variable_names p"
  let ?a0 = "m * ?S"
  from ok have
    dist: "distinct (controls p @ state_names p @ ?E)" and
    integ: "set (integrated_states p) \<subseteq> set ?S1" and
    igs: "\<forall>v\<in>set (integrated_states p). ex_integrators e v \<noteq> None" and
    pos: "\<forall>(v, n)\<in>set (path_variables p @ extra_variables p). 1 \<le> n" and
    grid: "\<forall>v\<in>set ?P. length (times_of p v) = length (collocation_times p)" and
    cin: "set (map fst (ex_constant_inputs e)) \<inter> set (state_names p @ ?E) = {}" and
    idn: "set (initial_derivative_names p) \<inter> set (state_names p @ ?E) = {}"
    by (simp_all add: extractable_def)
  have sn: "state_names p = ?S1 @ ?P" by (simp add: state_names_def)
  have dn: "distinct (state_names p @ ?E)" using dist by simp
  have d1: "distinct ?S1" and d2: "distinct ?P" and d3: "distinct ?E"
    and x12: "set ?S1 \<inter> set ?P = {}" and x13: "set ?S1 \<inter> set ?E = {}"
    and x23: "set ?P \<inter> set ?E = {}"
    using dn unfolding sn by auto
  \<comment> \<open>the index map of the member, in its three stages\<close>
  from im obtain o2 i2 where
    st: "index_states p (state_names p) ?a0 Map.empty = Inr (o2, i2)" and
    ind: "ind = snd (index_extra_variables p ?E o2 i2)"
    by (auto simp: index_member_def split: sum.splits)
  obtain o3 where ex: "index_extra_variables p ?E o2 i2 = (o3, ind)"
    using ind by (cases "index_extra_variables p ?E o2 i2") auto
  from st obtain o1 i1 where
    s1: "index_states p ?S1 ?a0 Map.empty = Inr (o1, i1)" and
    s2: "index_states p ?P o1 i1 = Inr (o2, i2)"
    unfolding sn index_states_append by (auto split: sum.splits)
  have off2: "o2 = ?a0 + sum_list (map (state_slots p) (state_names p))"
    by (rule index_states_offset [OF st])
  have off3: "o3 = o2 + sum_list (map (variable_size p) ?E)"
    by (rule index_extra_variables_offset [OF ex])
  have total: "o3 + length (derivatives p) = (m + 1) * ?S"
    using off2 off3 by (simp add: ensemble_member_size_def)
  have b3: "c + o3 \<le> length X" and bd: "c + o3 + length (derivatives p) \<le> length X"
    using total len by simp_all
  have b2: "c + o2 \<le> length X" using b3 off3 by simp
  \<comment> \<open>the sizes recorded for the variables\<close>
  have sz1: "\<forall>v\<in>set ?S1. variable_size p v = 1"
    using variable_size_state [OF dn] by blast
  have szP: "\<forall>v\<in>set ?P. 1 \<le> variable_size p v"
    using variable_size_positive [OF dn pos] by blast
  have szE: "\<forall>v\<in>set ?E. 1 \<le> variable_size p v"
    using variable_size_positive [OF dn pos] by blast
  have nip: "\<forall>v\<in>set ?P. v \<notin> set (integrated_states p)" using integ x12 by blast
  have pre: "\<forall>v\<in>set ?P. v \<notin> set (integrated_states p)
           \<and> length (times_of p v) = length (collocation_times p)
           \<and> 1 \<le> variable_size p v"
    using nip grid szP by blast
  \<comment> \<open>the stages of the extraction\<close>
  from extract_integrated_ok [OF igs, of p 0 Map.empty] obtain res1 where
    r1: "extract_integrated p e (integrated_states p) 0 Map.empty = Inr res1" by blast
  from collocated_reads_layout [OF s1 d1 sz1, of X c res1] obtain res2 where
    r2: "extract_collocated p X ?S1 (c + ?a0) res1 = (c + o1, res2)" and
    a2: "\<forall>v\<in>set ?S1. v \<notin> set (integrated_states p) \<longrightarrow>
           (\<exists>a b. i1 v = Some (Slice a b)
              \<and> res2 v = Some (Flat (scaled p v (slice X (c + a) (c + b)))))"
    by blast
  let ?res3 = "extract_constant_inputs (ex_constant_inputs e) res2"
  from path_variables_read_layout [OF s2 d2 pre b2, of ?res3] obtain res4 where
    r4: "extract_path_variables p X ?P (c + o1) ?res3 = Inr (c + o2, res4)" and
    a4: "\<forall>v\<in>set ?P. \<exists>a b. i2 v = Some (Slice a b)
           \<and> res4 v = Some (if variable_size p v > 1
                then Rows (path_rows p v (variable_size p v) (length (collocation_times p))
                             (slice X (c + a) (c + b)))
                else Flat (scaled p v (slice X (c + a) (c + b))))" and
    f4: "\<forall>k. k \<notin> set ?P \<longrightarrow> res4 k = ?res3 k"
    by blast
  from extra_variables_read_layout [OF ex d3 szE b3, of res4] obtain res5 where
    r5: "extract_extra_variables p X ?E (c + o2) res4 = Inr (c + o3, res5)" and
    a5: "\<forall>v\<in>set ?E. \<exists>a b. ind v = Some (Slice a b)
           \<and> res5 v = Some (if variable_size p v > 1
                then Rows [scaled_components p v (slice X (c + a) (c + b))]
                else Flat (scaled p v (slice X (c + a) (c + b))))" and
    f5: "\<forall>k. k \<notin> set ?E \<longrightarrow> res5 k = res4 k"
    by blast
  let ?kds = "zip [0 ..< length (differentiated_states p)]
                (zip (differentiated_states p) (derivatives p))"
  have kin: "\<forall>(k, s, d)\<in>set ?kds. (c + o3) + k < length X"
  proof (clarify)
    fix k s d assume "(k, s, d) \<in> set ?kds"
    then obtain j where j: "j < length ?kds" "?kds ! j = (k, s, d)"
      by (auto simp: in_set_conv_nth)
    then have "k = j" "j < length (derivatives p)" by auto
    with bd show "(c + o3) + k < length X" by simp
  qed
  from extract_initial_derivatives_ok [OF kin, of p e res5] obtain res6 where
    r6: "extract_initial_derivatives p e X (c + o3) ?kds res5 = Inr res6" and
    f6: "\<forall>key. key \<notin> (\<lambda>(k, s, d). ''initial_'' @ d) ` set ?kds \<longrightarrow> res6 key = res5 key"
    by blast
  have keys: "(\<lambda>(k, s, d). ''initial_'' @ d) ` set ?kds \<subseteq> set (initial_derivative_names p)"
  proof
    fix key assume "key \<in> (\<lambda>(k, s, d). ''initial_'' @ d) ` set ?kds"
    then obtain k s d where "(k, s, d) \<in> set ?kds" "key = ''initial_'' @ d" by auto
    then have "d \<in> set (derivatives p)" by (auto dest!: set_zip_rightD)
    then show "key \<in> set (initial_derivative_names p)"
      using \<open>key = ''initial_'' @ d\<close> by (simp add: initial_derivative_names_def)
  qed
  have f6': "\<And>v. v \<in> set (state_names p @ ?E) \<Longrightarrow> res6 v = res5 v"
    using f6 keys idn by blast
  have f3: "\<And>v. v \<in> set (state_names p @ ?E) \<Longrightarrow> ?res3 v = res2 v"
    using cin by (intro extract_constant_inputs_keep) blast
  have div: "ex_state_size e div ensemble_size p = ?S" using ss m by simp
  have run: "extract_states p e X m = Inr res6"
    using m r1 r2 r4 r5 r6 by (simp add: extract_states_def div cs Let_def)
  \<comment> \<open>what the three kinds of variables read\<close>
  have c1: "\<forall>v\<in>set ?S1. v \<notin> set (integrated_states p) \<longrightarrow>
          (\<exists>a b. ind v = Some (Slice a b)
             \<and> res6 v = Some (Flat (scaled p v (slice X (c + a) (c + b)))))"
  proof (intro ballI impI)
    fix v assume v: "v \<in> set ?S1" "v \<notin> set (integrated_states p)"
    then have np: "v \<notin> set ?P" "v \<notin> set ?E" using x12 x13 by auto
    have "ind v = i2 v" using index_extra_variables_keep [OF ex np(2)] .
    also have "\<dots> = i1 v" using index_states_keep [OF s2 np(1)] .
    finally have iv: "ind v = i1 v" .
    have vin: "v \<in> set (state_names p @ ?E)" using v(1) sn by auto
    have "res6 v = res5 v" by (rule f6' [OF vin])
    also have "\<dots> = res4 v" using f5 np(2) by simp
    also have "\<dots> = ?res3 v" using f4 np(1) by simp
    also have "\<dots> = res2 v" by (rule f3 [OF vin])
    finally have rv: "res6 v = res2 v" .
    from a2 v iv rv
    show "\<exists>a b. ind v = Some (Slice a b)
        \<and> res6 v = Some (Flat (scaled p v (slice X (c + a) (c + b))))"
      by auto
  qed
  have c2: "\<forall>v\<in>set ?P. \<exists>a b. ind v = Some (Slice a b)
          \<and> res6 v = Some (if variable_size p v > 1
               then Rows (path_rows p v (variable_size p v) (length (collocation_times p))
                            (slice X (c + a) (c + b)))
               else Flat (scaled p v (slice X (c + a) (c + b))))"
  proof
    fix v assume v: "v \<in> set ?P"
    then have ne: "v \<notin> set ?E" using x23 by auto
    have iv: "ind v = i2 v" using index_extra_variables_keep [OF ex ne] .
    have vin: "v \<in> set (state_names p @ ?E)" using v sn by auto
    have "res6 v = res5 v" by (rule f6' [OF vin])
    also have "\<dots> = res4 v" using f5 ne by simp
    finally have rv: "res6 v = res4 v" .
    from a4 v iv rv
    show "\<exists>a b. ind v = Some (Slice a b)
          \<and> res6 v = Some (if variable_size p v > 1
               then Rows (path_rows p v (variable_size p v) (length (collocation_times p))
                            (slice X (c + a) (c + b)))
               else Flat (scaled p v (slice X (c + a) (c + b))))"
      by auto
  qed
  have c3: "\<forall>v\<in>set ?E. \<exists>a b. ind v = Some (Slice a b)
          \<and> res6 v = Some (if variable_size p v > 1
               then Rows [scaled_components p v (slice X (c + a) (c + b))]
               else Flat (scaled p v (slice X (c + a) (c + b))))"
  proof
    fix v assume v: "v \<in> set ?E"
    have vin: "v \<in> set (state_names p @ ?E)" using v by simp
    have rv: "res6 v = res5 v" by (rule f6' [OF vin])
    from a5 v rv
    show "\<exists>a b. ind v = Some (Slice a b)
          \<and> res6 v = Some (if variable_size p v > 1
               then Rows [scaled_components p v (slice X (c + a) (c + b))]
               else Flat (scaled p v (slice X (c + a) (c + b))))"
      by auto
  qed
  from run c1 c2 c3 show ?thesis by blast
qed

lemma scaled_descaled:
  "variable_nominal p v 0 \<noteq> 0 \<Longrightarrow>
   scaled p v (map (\<lambda>y. y / variable_nominal p v 0) ys) = ys"
  by (simp add: scaled_def comp_def)

text \<open>
  Claim C9, as the code has it. For a layout built by \<open>transcribe\<close>, a vector of its
  length and an ensemble member, \<open>extract_states\<close> returns, and what it and
  \<open>extract_controls\<close> return for a control, a state or algebraic state that is not
  integrated, a path variable and an extra variable is the variable's slice of the vector,
  located by the index map, times the nominal (for a symbol with several rows: the slice
  reshaped, with the nominal of each component). So for a non-zero nominal, descaled
  physical values written into the slice are read back unchanged. Integrated states are
  decoded from the integrator outputs instead.
\<close>

theorem extraction_reads_slices:
  assumes L: "transcribe_layout I p bounds seed = Inr L"
    and e: "ex_control_size e = control_size L" "ex_state_size e = state_size L"
    and ok: "extractable p e"
    and X: "length X = solver_input_size L"
    and m: "m < ensemble_size p"
  shows "\<exists>res. extract_states p e X m = Inr res
    \<and> (\<forall>v\<in>set (controls p). \<exists>a b. (indices L ! m) v = Some (Slice a b)
          \<and> extract_controls p X v = Some (Flat (scaled p v (slice X a b))))
    \<and> (\<forall>v\<in>set (differentiated_states p @ algebraic_states p).
          v \<notin> set (integrated_states p) \<longrightarrow>
          (\<exists>a b. (indices L ! m) v = Some (Slice a b)
             \<and> res v = Some (Flat (scaled p v (slice X a b)))))
    \<and> (\<forall>v\<in>set (path_variable_names p). \<exists>a b. (indices L ! m) v = Some (Slice a b)
          \<and> res v = Some (if variable_size p v > 1
               then Rows (path_rows p v (variable_size p v) (length (collocation_times p))
                            (slice X a b))
               else Flat (scaled p v (slice X a b))))
    \<and> (\<forall>v\<in>set (extra_variable_names p). \<exists>a b. (indices L ! m) v = Some (Slice a b)
          \<and> res v = Some (if variable_size p v > 1
               then Rows [scaled_components p v (slice X a b)]
               else Flat (scaled p v (slice X a b))))
    \<and> (\<forall>v ys. variable_nominal p v 0 \<noteq> 0 \<longrightarrow>
          scaled p v (map (\<lambda>y. y / variable_nominal p v 0) ys) = ys)"
proof -
  let ?dc = "discretize_controls I p bounds seed"
  let ?c = "dc_count ?dc"
  let ?S = "ensemble_member_size p"
  from L obtain n inds where
    ds: "discretize_states p = Inr (n, inds)" and
    Ld: "L = \<lparr>control_size = ?c, state_size = n,
             indices = map (\<lambda>(c, s). merge_indices ?c c s) (zip (dc_indices ?dc) inds),
             solver_input_size = ?c + n\<rparr>"
    by (auto simp: transcribe_layout_def Let_def split: option.splits sum.splits)
  have Lc: "control_size L = ?c" and Ls: "state_size L = n"
    and Li: "indices L = map (\<lambda>(c, s). merge_indices ?c c s) (zip (dc_indices ?dc) inds)"
    and Lx: "solver_input_size L = ?c + n"
    by (simp_all add: Ld)
  from ds have im: "index_members p [0 ..< ensemble_size p] = Inr inds"
    and n: "n = ensemble_size p * ?S"
    by (auto simp: discretize_states_def split: sum.splits)
  from index_members_nth [OF im] m have
    li: "length inds = ensemble_size p" and mem: "index_member p m = Inr (inds ! m)"
    by auto
  from ok have dist: "distinct (controls p @ state_names p @ extra_variable_names p)"
    by (simp add: extractable_def)
  then have dc: "distinct (controls p)"
    and dn: "distinct (state_names p @ extra_variable_names p)"
    and cx: "set (controls p) \<inter> set (state_names p @ extra_variable_names p) = {}"
    by auto
  have dm: "dom (inds ! m) = set (state_names p) \<union> set (extra_variable_names p)"
    by (rule index_member_tiles [OF mem dn, THEN conjunct1])
  \<comment> \<open>the controls\<close>
  define init where "init = \<lparr>dc_count = control_count p,
        dc_discrete = replicate (control_count p) False,
        dc_lbx = replicate (control_count p) NegInf,
        dc_ubx = replicate (control_count p) PosInf,
        dc_x0 = replicate (control_count p) (Fin 0),
        dc_indices = replicate (ensemble_size p) (Map.empty :: string \<rightharpoonup> index)\<rparr>"
  have dcd: "?dc = discretize_controls_loop I p bounds seed (controls p) 0 init"
    by (simp add: discretize_controls_def init_def)
  have li0: "length (dc_indices init) = ensemble_size p" by (simp add: init_def)
  note crl = controls_read_layout [OF dc, of I p bounds seed 0 init X Map.empty,
      folded dcd extract_controls_def]
  from crl have ld: "length (dc_indices ?dc) = ensemble_size p" using li0 by simp
  from crl have "\<forall>k < length (dc_indices init).
          (\<forall>v\<in>set (controls p). \<exists>a b. (dc_indices ?dc ! k) v = Some (Slice a b)
            \<and> extract_controls p X v = Some (Flat (scaled p v (slice X a b))))
        \<and> (\<forall>w. w \<notin> set (controls p) \<longrightarrow> (dc_indices ?dc ! k) w = (dc_indices init ! k) w)"
    by (rule conjunct1 [OF conjunct2])
  with m li0 have ctl: "\<forall>v\<in>set (controls p). \<exists>a b. (dc_indices ?dc ! m) v = Some (Slice a b)
            \<and> extract_controls p X v = Some (Flat (scaled p v (slice X a b)))"
    by simp
  have Lm: "indices L ! m = merge_indices ?c (dc_indices ?dc ! m) (inds ! m)"
    using m li ld by (simp add: Li)
  have mc: "\<And>v. v \<in> set (controls p) \<Longrightarrow> (indices L ! m) v = (dc_indices ?dc ! m) v"
  proof -
    fix v assume "v \<in> set (controls p)"
    with cx dm have "(inds ! m) v = None" by auto
    then show "(indices L ! m) v = (dc_indices ?dc ! m) v"
      by (simp add: Lm merge_indices_def map_add_def)
  qed
  have ms: "\<And>v a b. (inds ! m) v = Some (Slice a b) \<Longrightarrow>
      (indices L ! m) v = Some (Slice (?c + a) (?c + b))"
    by (simp add: Lm merge_indices_def map_add_def add.commute)
  \<comment> \<open>the states\<close>
  have len: "?c + (m + 1) * ?S \<le> length X"
  proof -
    have "(m + 1) * ?S \<le> ensemble_size p * ?S" using m by (intro mult_le_mono1) simp
    then show ?thesis using X Lx n by simp
  qed
  have ss: "ex_state_size e = ensemble_size p * ?S" using e(2) Ls n by simp
  have cs: "ex_control_size e = ?c" using e(1) Lc by simp
  from member_extraction [OF mem ok cs ss m len] obtain res where
    run: "extract_states p e X m = Inr res" and
    s1: "\<forall>v\<in>set (differentiated_states p @ algebraic_states p).
          v \<notin> set (integrated_states p) \<longrightarrow>
          (\<exists>a b. (inds ! m) v = Some (Slice a b)
             \<and> res v = Some (Flat (scaled p v (slice X (?c + a) (?c + b)))))" and
    s2: "\<forall>v\<in>set (path_variable_names p). \<exists>a b. (inds ! m) v = Some (Slice a b)
          \<and> res v = Some (if variable_size p v > 1
               then Rows (path_rows p v (variable_size p v) (length (collocation_times p))
                            (slice X (?c + a) (?c + b)))
               else Flat (scaled p v (slice X (?c + a) (?c + b))))" and
    s3: "\<forall>v\<in>set (extra_variable_names p). \<exists>a b. (inds ! m) v = Some (Slice a b)
          \<and> res v = Some (if variable_size p v > 1
               then Rows [scaled_components p v (slice X (?c + a) (?c + b))]
               else Flat (scaled p v (slice X (?c + a) (?c + b))))"
    by blast
  have c0: "\<forall>v\<in>set (controls p). \<exists>a b. (indices L ! m) v = Some (Slice a b)
          \<and> extract_controls p X v = Some (Flat (scaled p v (slice X a b)))"
    using ctl mc by simp
  have c1: "\<forall>v\<in>set (differentiated_states p @ algebraic_states p).
          v \<notin> set (integrated_states p) \<longrightarrow>
          (\<exists>a b. (indices L ! m) v = Some (Slice a b)
             \<and> res v = Some (Flat (scaled p v (slice X a b))))"
  proof (intro ballI impI)
    fix v assume "v \<in> set (differentiated_states p @ algebraic_states p)"
      "v \<notin> set (integrated_states p)"
    with s1 obtain a b where ab: "(inds ! m) v = Some (Slice a b)"
      "res v = Some (Flat (scaled p v (slice X (?c + a) (?c + b))))" by blast
    from ms [OF ab(1)] ab(2)
    show "\<exists>a b. (indices L ! m) v = Some (Slice a b)
             \<and> res v = Some (Flat (scaled p v (slice X a b)))" by blast
  qed
  have c2: "\<forall>v\<in>set (path_variable_names p). \<exists>a b. (indices L ! m) v = Some (Slice a b)
          \<and> res v = Some (if variable_size p v > 1
               then Rows (path_rows p v (variable_size p v) (length (collocation_times p))
                            (slice X a b))
               else Flat (scaled p v (slice X a b)))"
  proof
    fix v assume "v \<in> set (path_variable_names p)"
    with s2 obtain a b where ab: "(inds ! m) v = Some (Slice a b)"
      "res v = Some (if variable_size p v > 1
               then Rows (path_rows p v (variable_size p v) (length (collocation_times p))
                            (slice X (?c + a) (?c + b)))
               else Flat (scaled p v (slice X (?c + a) (?c + b))))" by blast
    from ms [OF ab(1)] ab(2)
    show "\<exists>a b. (indices L ! m) v = Some (Slice a b)
          \<and> res v = Some (if variable_size p v > 1
               then Rows (path_rows p v (variable_size p v) (length (collocation_times p))
                            (slice X a b))
               else Flat (scaled p v (slice X a b)))" by blast
  qed
  have c3: "\<forall>v\<in>set (extra_variable_names p). \<exists>a b. (indices L ! m) v = Some (Slice a b)
          \<and> res v = Some (if variable_size p v > 1
               then Rows [scaled_components p v (slice X a b)]
               else Flat (scaled p v (slice X a b)))"
  proof
    fix v assume "v \<in> set (extra_variable_names p)"
    with s3 obtain a b where ab: "(inds ! m) v = Some (Slice a b)"
      "res v = Some (if variable_size p v > 1
               then Rows [scaled_components p v (slice X (?c + a) (?c + b))]
               else Flat (scaled p v (slice X (?c + a) (?c + b))))" by blast
    from ms [OF ab(1)] ab(2)
    show "\<exists>a b. (indices L ! m) v = Some (Slice a b)
          \<and> res v = Some (if variable_size p v > 1
               then Rows [scaled_components p v (slice X a b)]
               else Flat (scaled p v (slice X a b)))" by blast
  qed
  have c4: "\<forall>v ys. variable_nominal p v 0 \<noteq> 0 \<longrightarrow>
          scaled p v (map (\<lambda>y. y / variable_nominal p v 0) ys) = ys"
    using scaled_descaled by blast
  show ?thesis by (rule exI [of _ res]) (intro conjI run c0 c1 c2 c3 c4)
qed

lemma ex_layout_extractable: "extractable ex_layout ex_extraction"
  by (simp add: extractable_def state_names_def path_variable_names_def
      extra_variable_names_def initial_derivative_names_def ex_layout_def ex_extraction_def)

lemma ex_layout_extract_states:
  "(case extract_states ex_layout ex_extraction [10, 11, 20, 21, 22, 30, 31, 32] 1 of
      Inl err \<Rightarrow> None | Inr res \<Rightarrow> res ''x'') = Some (Flat [30, 31])"
  by (simp add: extract_states_def ex_layout_def ex_extraction_def Let_def scaled_def
      slice_def path_variable_names_def extra_variable_names_def)

lemma ex_layout_extract_controls:
  "extract_controls ex_layout [10, 11, 20, 21, 22, 30, 31, 32] ''u'' = Some (Flat [10, 11])"
  by (simp add: extract_controls_def ex_layout_def Let_def scaled_def slice_def)

theorem extraction_reads_slices_witness:
  "extractable ex_layout ex_extraction
   \<and> (\<exists>L. transcribe_layout first_sample ex_layout Map.empty Map.empty = Inr L
         \<and> ex_control_size ex_extraction = control_size L
         \<and> ex_state_size ex_extraction = state_size L
         \<and> length [10, 11, 20, 21, 22, 30, 31, 32 :: real] = solver_input_size L
         \<and> (\<exists>a b. (indices L ! 1) ''x'' = Some (Slice a b)
               \<and> scaled ex_layout ''x'' (slice [10, 11, 20, 21, 22, 30, 31, 32] a b) = [30, 31]))
   \<and> (case extract_states ex_layout ex_extraction [10, 11, 20, 21, 22, 30, 31, 32] 1 of
         Inl err \<Rightarrow> None | Inr res \<Rightarrow> res ''x'') = Some (Flat [30, 31])
   \<and> extract_controls ex_layout [10, 11, 20, 21, 22, 30, 31, 32] ''u'' = Some (Flat [10, 11])"
proof -
  let ?X = "[10, 11, 20, 21, 22, 30, 31, 32 :: real]"
  obtain L where L: "transcribe_layout first_sample ex_layout Map.empty Map.empty = Inr L"
    by (simp add: transcribe_layout_def ex_layout_check ex_layout_states Let_def)
  have d: "distinct (state_names ex_layout @ extra_variable_names ex_layout)"
    by (simp add: state_names_def path_variable_names_def extra_variable_names_def ex_layout_def)
  have c: "dc_count (discretize_controls first_sample ex_layout Map.empty Map.empty) = 2"
    by (simp add: dc_count_discretize_controls control_count_def) (simp add: ex_layout_def)
  have e: "ensemble_size ex_layout = 2" by (simp add: ex_layout_def)
  from L c have sz: "control_size L = 2" "state_size L = 6" "solver_input_size L = 8"
    by (auto simp: transcribe_layout_def ex_layout_check ex_layout_states Let_def)
  have e1: "ex_control_size ex_extraction = control_size L"
    and e2: "ex_state_size ex_extraction = state_size L"
    and lx: "length ?X = solver_input_size L"
    using sz by (simp_all add: ex_extraction_def)
  have m: "1 < ensemble_size ex_layout" using e by simp
  from extraction_reads_slices [OF L e1 e2 ex_layout_extractable lx m] obtain res where
    r: "extract_states ex_layout ex_extraction ?X 1 = Inr res" and
    s: "\<forall>v\<in>set (differentiated_states ex_layout @ algebraic_states ex_layout).
          v \<notin> set (integrated_states ex_layout) \<longrightarrow>
          (\<exists>a b. (indices L ! 1) v = Some (Slice a b)
             \<and> res v = Some (Flat (scaled ex_layout v (slice ?X a b))))"
    by blast
  have "''x'' \<in> set (differentiated_states ex_layout @ algebraic_states ex_layout)"
    "''x'' \<notin> set (integrated_states ex_layout)" by (simp_all add: ex_layout_def)
  with s obtain a b where ab: "(indices L ! 1) ''x'' = Some (Slice a b)"
    "res ''x'' = Some (Flat (scaled ex_layout ''x'' (slice ?X a b)))" by blast
  from ex_layout_extract_states r ab(2)
  have "scaled ex_layout ''x'' (slice ?X a b) = [30, 31]" by simp
  with L e1 e2 lx ab(1) ex_layout_extractable ex_layout_extract_states
    ex_layout_extract_controls
  show ?thesis by blast
qed

lemma ex_integrated_states:
  "discretize_states ex_integrated = Inr (2, [[''x'' \<mapsto> Offset 0]])"
  by (simp add: discretize_states_def index_member_def ensemble_member_size_def
      state_slots_def state_names_def path_variable_names_def extra_variable_names_def
      variable_size_def variable_sizes_def ex_integrated_def)

text \<open>
  Claim C9 as stated fails for an integrated state: in \<open>ex_integrated\<close> the index
  map gives \<open>x\<close> the single slot 2 (offset 0 behind the two control slots), which
  holds 20, and \<open>extract_states\<close> returns for \<open>x\<close> the integrator output 25.
\<close>

theorem integrated_state_counterexample:
  "(case extract_states ex_integrated ex_integrated_extraction [10, 11, 20, 0] 0 of
      Inl err \<Rightarrow> None | Inr res \<Rightarrow> res ''x'') = Some (Flat [25])
   \<and> discretize_states ex_integrated = Inr (2, [[''x'' \<mapsto> Offset 0]])
   \<and> control_count ex_integrated = 2
   \<and> shift_index 2 (Offset 0) = Offset 2
   \<and> scaled ex_integrated ''x'' [[10, 11, 20, 0] ! 2] = [20]"
  using ex_integrated_states
  by (simp add: extract_states_def ex_integrated_def ex_integrated_extraction_def Let_def
      scaled_def slice_def path_variable_names_def extra_variable_names_def control_count_def)

end
